theory Spec2Isabelle
  imports Complex_Main "HOL-Library.Extended_Nat" "HOL-Library.Sublist" "HOL-Library.AList"
begin

section \<open>Colours and texture histograms\<close>

text \<open>
  The repository holds three scripts: the static bloxelizer, the sequence (GIF) bloxelizer
  and the texture indexer, together with the companion generator of included block ids.
  The two bloxelizers share \<open>colorDistance\<close>, \<open>hexToRgb\<close>, \<open>calculatePerceivedColor\<close>,
  \<open>calculateColorVariance\<close>, \<open>loadAndPrepareCandidates\<close> and \<open>generateBlueprintFiles\<close>
  word for word; they differ in \<open>findBestMatch\<close>.

  JavaScript numbers are modelled exactly: pixel counts and colour channels are integers,
  distances and averages are reals. The rounding of double precision is not modelled; the
  sums that occur (channels below 256, 64 pixels per texture) are integers far below
  \<open>2^53\<close> and so exact, and square roots and quotients of such integers keep their
  order when rounded.

  A texture is an entry of the index file's palette. Its histogram is the pair of parallel
  arrays \<open>colorHexes\<close> and \<open>colorPixelCounts\<close>; \<open>blockIds\<close> is \<open>None\<close> when the
  entry has no such field.
\<close>

record rgb =
  rgb_r :: int
  rgb_g :: int
  rgb_b :: int

record texture =
  textureId :: nat
  atlasFileIndex :: nat
  textureIndexOnAtlas :: nat
  hasTransparency :: bool
  colorCount :: nat
  colorHexes :: "string list"
  colorPixelCounts :: "nat list"
  blockIds :: "nat list option"

record candidate =
  textureInfo :: texture
  perceivedColor :: rgb

definition colorDistance :: "rgb \<Rightarrow> rgb \<Rightarrow> real" where
  "colorDistance rgb1 rgb2 =
     (let rDiff = rgb_r rgb1 - rgb_r rgb2;
          gDiff = rgb_g rgb1 - rgb_g rgb2;
          bDiff = rgb_b rgb1 - rgb_b rgb2
      in sqrt (real_of_int (rDiff * rDiff + gDiff * gDiff + bDiff * bDiff)))"

subsection \<open>Colour keys\<close>

text \<open>
  A histogram key is the string \<open>#transparent\<close> or \<open>#\<close> followed by three bytes in two
  hexadecimal digits each. \<open>parseInt16\<close> is \<open>parseInt(s, 16)\<close> on strings of hexadecimal
  digits. On any other string JavaScript yields \<open>NaN\<close> or the value of a digit prefix;
  the model has no \<open>NaN\<close>, gives 0 for a character that is no digit, and every statement
  that reads a histogram assumes \<open>wf_hex\<close> of its keys.
\<close>

definition hexDigit :: "char \<Rightarrow> int option" where
  "hexDigit c =
     (let n = of_char c :: nat in
      if 48 \<le> n \<and> n \<le> 57 then Some (int n - 48)
      else if 97 \<le> n \<and> n \<le> 102 then Some (int n - 87)
      else if 65 \<le> n \<and> n \<le> 70 then Some (int n - 55)
      else None)"

definition parseInt16 :: "string \<Rightarrow> int" where
  "parseInt16 s = foldl (\<lambda>acc c. 16 * acc + (case hexDigit c of Some d \<Rightarrow> d | None \<Rightarrow> 0)) 0 s"

definition slice :: "nat \<Rightarrow> nat \<Rightarrow> string \<Rightarrow> string" where
  "slice i j s = take (j - i) (drop i s)"

definition hexToRgb :: "string \<Rightarrow> rgb option" where
  "hexToRgb hex =
     (if hex = ''#transparent'' then None
      else Some \<lparr>rgb_r = parseInt16 (slice 1 3 hex),
                 rgb_g = parseInt16 (slice 3 5 hex),
                 rgb_b = parseInt16 (slice 5 7 hex)\<rparr>)"

definition wf_hex :: "string \<Rightarrow> bool" where
  "wf_hex hex \<longleftrightarrow>
     hex = ''#transparent'' \<or>
     (length hex = 7 \<and> hd hex = CHR ''#'' \<and> list_all (\<lambda>c. hexDigit c \<noteq> None) (tl hex))"

text \<open>
  The key the texture analyzer writes for an opaque pixel:
  \<open>'#' + [r, g, b].map(c => c.toString(16).padStart(2, '0')).join('')\<close>.
\<close>

definition digitChar :: "nat \<Rightarrow> char" where
  "digitChar d = (if d < 10 then char_of (48 + d) else char_of (87 + d))"

definition toHex2 :: "nat \<Rightarrow> string" where
  "toHex2 c = (if c < 16 then [CHR ''0'', digitChar c] else [digitChar (c div 16), digitChar (c mod 16)])"

definition colorKey :: "nat \<Rightarrow> nat \<Rightarrow> nat \<Rightarrow> string" where
  "colorKey rv gv bv = CHR ''#'' # toHex2 rv @ toHex2 gv @ toHex2 bv"

definition wf_texture :: "texture \<Rightarrow> bool" where
  "wf_texture t \<longleftrightarrow>
     length (colorPixelCounts t) = length (colorHexes t) \<and>
     colorCount t = length (colorHexes t) \<and>
     list_all wf_hex (colorHexes t)"

subsection \<open>Perceived colour and variance\<close>

text \<open>
  The loops read \<open>colorHexes[i]\<close> and \<open>colorPixelCounts[i]\<close> side by side. In a
  well-formed texture the two arrays have one length, so both reads are in range; where
  the counts are shorter JavaScript reads \<open>undefined\<close> and the totals become \<open>NaN\<close>,
  which the model does not represent.
\<close>

record totals =
  totalR :: int
  totalG :: int
  totalB :: int
  totalPixels :: int

definition perceived_body :: "texture \<Rightarrow> nat \<Rightarrow> totals \<Rightarrow> totals" where
  "perceived_body t i s =
     (let hex = colorHexes t ! i;
          count = int (colorPixelCounts t ! i)
      in case hexToRgb hex of
           None \<Rightarrow> s
         | Some c \<Rightarrow> \<lparr>totalR = totalR s + rgb_r c * count,
                      totalG = totalG s + rgb_g c * count,
                      totalB = totalB s + rgb_b c * count,
                      totalPixels = totalPixels s + count\<rparr>)"

text \<open>
  The depth is a number or \<open>Infinity\<close>; the loop runs over \<open>i = 0, ..., limit - 1\<close> with
  \<open>limit = Math.min(depth, colorHexes.length)\<close>. \<open>Math.round\<close> rounds half up, as
  \<open>round\<close> does. The result \<open>None\<close> is \<open>null\<close>.
\<close>

definition perceived_limit :: "texture \<Rightarrow> enat \<Rightarrow> nat" where
  "perceived_limit t depth =
     (case depth of enat d \<Rightarrow> min d (length (colorHexes t)) | \<infinity> \<Rightarrow> length (colorHexes t))"

definition calculatePerceivedColor :: "texture \<Rightarrow> enat \<Rightarrow> rgb option" where
  "calculatePerceivedColor t depth =
     (let s = fold (perceived_body t) [0..<perceived_limit t depth]
                \<lparr>totalR = 0, totalG = 0, totalB = 0, totalPixels = 0\<rparr>
      in if totalPixels s = 0 then None
         else Some \<lparr>rgb_r = round (real_of_int (totalR s) / real_of_int (totalPixels s)),
                    rgb_g = round (real_of_int (totalG s) / real_of_int (totalPixels s)),
                    rgb_b = round (real_of_int (totalB s) / real_of_int (totalPixels s))\<rparr>)"

definition variance_body :: "texture \<Rightarrow> rgb \<Rightarrow> nat \<Rightarrow> real \<times> int \<Rightarrow> real \<times> int" where
  "variance_body t meanColor i s =
     (let hex = colorHexes t ! i;
          count = int (colorPixelCounts t ! i)
      in case hexToRgb hex of
           None \<Rightarrow> s
         | Some c \<Rightarrow> (fst s + colorDistance c meanColor * real_of_int count, snd s + count))"

definition calculateColorVariance :: "texture \<Rightarrow> real" where
  "calculateColorVariance t =
     (if colorCount t \<le> 1 then 0
      else case calculatePerceivedColor t \<infinity> of
             None \<Rightarrow> 0
           | Some meanColor \<Rightarrow>
               (let s = fold (variance_body t meanColor) [0..<length (colorHexes t)] (0, 0)
                in if snd s = 0 then 0 else fst s / real_of_int (snd s)))"

text \<open>
  The claim about the variance speaks of the weighted mean colour of the histogram. Read
  literally that is the exact mean, channel by channel, of the opaque entries weighted by
  their pixel counts; \<open>variance_spec\<close> follows those words. \<open>variance_rounded\<close> measures
  the distances from the mean rounded to integer channels instead.
\<close>

definition opaque_entries :: "texture \<Rightarrow> (rgb \<times> nat) list" where
  "opaque_entries t =
     List.map_filter (\<lambda>(hex, count). map_option (\<lambda>c. (c, count)) (hexToRgb hex))
       (zip (colorHexes t) (colorPixelCounts t))"

definition weight_sum :: "(rgb \<times> nat) list \<Rightarrow> (rgb \<Rightarrow> real) \<Rightarrow> real" where
  "weight_sum es f = (\<Sum>(c, count) \<leftarrow> es. f c * real count)"

definition exact_distance :: "rgb \<Rightarrow> real \<times> real \<times> real \<Rightarrow> real" where
  "exact_distance c m =
     (case m of (mr, mg, mb) \<Rightarrow>
        sqrt ((real_of_int (rgb_r c) - mr)\<^sup>2 + (real_of_int (rgb_g c) - mg)\<^sup>2
              + (real_of_int (rgb_b c) - mb)\<^sup>2))"

definition variance_spec :: "texture \<Rightarrow> real" where
  "variance_spec t =
     (let es = opaque_entries t; n = weight_sum es (\<lambda>c. 1)
      in if n = 0 then 0
         else let m = (weight_sum es (\<lambda>c. real_of_int (rgb_r c)) / n,
                       weight_sum es (\<lambda>c. real_of_int (rgb_g c)) / n,
                       weight_sum es (\<lambda>c. real_of_int (rgb_b c)) / n)
              in weight_sum es (\<lambda>c. exact_distance c m) / n)"

definition variance_rounded :: "texture \<Rightarrow> real" where
  "variance_rounded t =
     (let es = opaque_entries t; n = weight_sum es (\<lambda>c. 1)
      in if n = 0 then 0
         else let m = \<lparr>rgb_r = round (weight_sum es (\<lambda>c. real_of_int (rgb_r c)) / n),
                       rgb_g = round (weight_sum es (\<lambda>c. real_of_int (rgb_g c)) / n),
                       rgb_b = round (weight_sum es (\<lambda>c. real_of_int (rgb_b c)) / n)\<rparr>
              in weight_sum es (\<lambda>c. colorDistance c m) / n)"

text \<open>The opaque entries among the first \<open>n\<close> of the histogram, and the one at position \<open>n\<close>.\<close>

definition entries_upto :: "texture \<Rightarrow> nat \<Rightarrow> (rgb \<times> nat) list" where
  "entries_upto t n =
     List.map_filter (\<lambda>(hex, count). map_option (\<lambda>c. (c, count)) (hexToRgb hex))
       (take n (zip (colorHexes t) (colorPixelCounts t)))"

definition entry_at :: "texture \<Rightarrow> nat \<Rightarrow> (rgb \<times> nat) list" where
  "entry_at t n = (case hexToRgb (colorHexes t ! n) of None \<Rightarrow> [] | Some c \<Rightarrow> [(c, colorPixelCounts t ! n)])"

section \<open>Candidate preparation\<close>

text \<open>
  \<open>CONFIG\<close> of the bloxelizers; \<open>None\<close> is \<open>null\<close>. The index file holds the palette, the
  block map and, per face, an object from colour key to texture ids, whose entries are
  kept in insertion order.
\<close>

datatype error = FaceDirectionNotFound | NoCandidates | RangeError | TypeError | CollaboratorFailure

record config =
  faceDirection :: string
  textureSwitchThreshold :: real
  maxVariance :: "real option"
  searchDepth :: "nat option"
  maxColorCount :: "real option"
  allowTransparency :: bool

record textureData =
  texture_palette :: "texture list"
  block_map :: "string \<rightharpoonup> string"
  face_index :: "string \<rightharpoonup> (string \<times> nat list) list"

text \<open>
  One pass of the loop body over a palette texture: each \<open>continue\<close> of the source is a
  \<open>None\<close>, in the source's order; \<open>valid\<close> is \<open>Object.values(faceIndex).flat()\<close>.
\<close>

definition candidate_of :: "config \<Rightarrow> nat list \<Rightarrow> texture \<Rightarrow> candidate option" where
  "candidate_of cfg valid t =
     (if textureId t \<notin> set valid then None
      else if (case maxColorCount cfg of None \<Rightarrow> False | Some m \<Rightarrow> real (colorCount t) > m) then None
      else if \<not> allowTransparency cfg \<and> hasTransparency t then None
      else if (case maxVariance cfg of None \<Rightarrow> False | Some v \<Rightarrow> calculateColorVariance t > v) then None
      else case calculatePerceivedColor t (case searchDepth cfg of None \<Rightarrow> \<infinity> | Some d \<Rightarrow> enat d) of
             None \<Rightarrow> None
           | Some pc \<Rightarrow> Some \<lparr>textureInfo = t, perceivedColor = pc\<rparr>)"

fun prepare_loop :: "config \<Rightarrow> nat list \<Rightarrow> texture list \<Rightarrow> candidate list \<Rightarrow> candidate list" where
  "prepare_loop cfg valid [] candidates = candidates"
| "prepare_loop cfg valid (t # ts) candidates =
     prepare_loop cfg valid ts
       (case candidate_of cfg valid t of None \<Rightarrow> candidates | Some c \<Rightarrow> candidates @ [c])"

definition loadAndPrepareCandidates :: "config \<Rightarrow> textureData \<Rightarrow> error + candidate list" where
  "loadAndPrepareCandidates cfg td =
     (case face_index td (faceDirection cfg) of
        None \<Rightarrow> Inl FaceDirectionNotFound
      | Some faceIndex \<Rightarrow>
          (let validTextureIdsForFace = concat (map snd faceIndex);
               candidates = prepare_loop cfg validTextureIdsForFace (texture_palette td) []
           in if length candidates = 0 then Inl NoCandidates else Inr candidates))"

text \<open>
  A limit is tighter than another when it is a number no larger than the other, or the
  other is \<open>null\<close> (unlimited).
\<close>

definition tighter :: "real option \<Rightarrow> real option \<Rightarrow> bool" where
  "tighter l' l \<longleftrightarrow> (case l of None \<Rightarrow> True | Some v \<Rightarrow> (case l' of None \<Rightarrow> False | Some v' \<Rightarrow> v' \<le> v))"

section \<open>Colour matching\<close>

text \<open>\<open>minDistance\<close> starts at \<open>Infinity\<close>, below which every distance lies.\<close>

datatype min_distance = Infinity | Finite real

fun below :: "real \<Rightarrow> min_distance \<Rightarrow> bool" where
  "below d Infinity = True"
| "below d (Finite m) = (d < m)"

fun nearest_loop :: "rgb \<Rightarrow> candidate list \<Rightarrow> candidate option \<times> min_distance
                       \<Rightarrow> candidate option \<times> min_distance" where
  "nearest_loop pixelColor [] s = s"
| "nearest_loop pixelColor (c # cs) (bestMatch, minDistance) =
     (let distance = colorDistance pixelColor (perceivedColor c)
      in if below distance minDistance
         then nearest_loop pixelColor cs (Some c, Finite distance)
         else nearest_loop pixelColor cs (bestMatch, minDistance))"

text \<open>The static bloxelizer's matcher (two arguments).\<close>

definition findBestMatch :: "rgb \<Rightarrow> candidate list \<Rightarrow> texture option" where
  "findBestMatch pixelColor candidates =
     (case fst (nearest_loop pixelColor candidates (None, Infinity)) of
        None \<Rightarrow> None
      | Some bestMatch \<Rightarrow> Some (textureInfo bestMatch))"

text \<open>
  The sequence bloxelizer's matcher. The previous choice is \<open>null\<close>, a texture id, or
  \<open>undefined\<close> when the previous grid has no such cell; \<open>===\<close> compares it with a texture
  id, so \<open>undefined\<close> equals no id.
\<close>

datatype previous_choice = Null | Undefined | TextureId nat

fun improvement_exceeds :: "real \<Rightarrow> min_distance \<Rightarrow> real \<Rightarrow> bool" where
  "improvement_exceeds previousMatchDistance Infinity threshold = False"
| "improvement_exceeds previousMatchDistance (Finite minDistance) threshold =
     (previousMatchDistance - minDistance > threshold)"

definition findBestMatch_seq :: "config \<Rightarrow> rgb \<Rightarrow> candidate list \<Rightarrow> previous_choice \<Rightarrow> texture option" where
  "findBestMatch_seq cfg pixelColor candidates previousTextureId =
     (case nearest_loop pixelColor candidates (None, Infinity) of
        (None, minDistance) \<Rightarrow> None
      | (Some bestOverallMatch, minDistance) \<Rightarrow>
          if previousTextureId = Null then Some (textureInfo bestOverallMatch)
          else if TextureId (textureId (textureInfo bestOverallMatch)) = previousTextureId
            then Some (textureInfo bestOverallMatch)
          else case find (\<lambda>c. TextureId (textureId (textureInfo c)) = previousTextureId) candidates of
                 None \<Rightarrow> Some (textureInfo bestOverallMatch)
               | Some previousCandidate \<Rightarrow>
                   (let previousMatchDistance = colorDistance pixelColor (perceivedColor previousCandidate)
                    in if improvement_exceeds previousMatchDistance minDistance (textureSwitchThreshold cfg)
                       then Some (textureInfo bestOverallMatch)
                       else Some (textureInfo previousCandidate)))"

text \<open>
  The position of the global nearest candidate, said without the loop: no candidate is
  nearer, and every earlier candidate is strictly farther.
\<close>

definition nearest_first :: "rgb \<Rightarrow> candidate list \<Rightarrow> nat \<Rightarrow> bool" where
  "nearest_first pixelColor candidates i \<longleftrightarrow>
     i < length candidates \<and>
     (\<forall>j < length candidates.
        colorDistance pixelColor (perceivedColor (candidates ! i))
          \<le> colorDistance pixelColor (perceivedColor (candidates ! j))) \<and>
     (\<forall>j < i.
        colorDistance pixelColor (perceivedColor (candidates ! i))
          < colorDistance pixelColor (perceivedColor (candidates ! j)))"

section \<open>Frames\<close>

text \<open>
  The resized frame is read through \<open>getPixelColor\<close>, which here gives the pixel's
  channels directly. Compositing the rendered image does not touch the grid of choices
  and is left out; when it fails (a missing atlas file) the whole job is aborted and no
  grid is used. A choice cell is \<open>null\<close> (\<open>None\<close>) or a
  texture id. Reading \<open>previousFrameChoices[y][x]\<close> throws a \<open>TypeError\<close> when row \<open>y\<close> is
  missing and gives \<open>undefined\<close> when only the cell is.
\<close>

record image =
  img_width :: nat
  img_height :: nat
  getPixelColor :: "nat \<Rightarrow> nat \<Rightarrow> rgb"

type_synonym choice_grid = "nat option list list"

definition previous_at :: "choice_grid option \<Rightarrow> nat \<Rightarrow> nat \<Rightarrow> error + previous_choice" where
  "previous_at previousFrameChoices y x =
     (case previousFrameChoices of
        None \<Rightarrow> Inr Null
      | Some grid \<Rightarrow>
          if y < length grid
          then (if x < length (grid ! y)
                then (case grid ! y ! x of None \<Rightarrow> Inr Null | Some tid \<Rightarrow> Inr (TextureId tid))
                else Inr Undefined)
          else Inl TypeError)"

fun traverse :: "('a \<Rightarrow> error + 'b) \<Rightarrow> 'a list \<Rightarrow> error + 'b list" where
  "traverse f [] = Inr []"
| "traverse f (x # xs) =
     (case f x of
        Inl e \<Rightarrow> Inl e
      | Inr y \<Rightarrow> (case traverse f xs of Inl e \<Rightarrow> Inl e | Inr ys \<Rightarrow> Inr (y # ys)))"

definition frame_cell :: "config \<Rightarrow> image \<Rightarrow> candidate list \<Rightarrow> choice_grid option \<Rightarrow> nat \<Rightarrow> nat
                            \<Rightarrow> error + nat option" where
  "frame_cell cfg blueprint candidates previousFrameChoices y x =
     (case previous_at previousFrameChoices y x of
        Inl e \<Rightarrow> Inl e
      | Inr previousChoiceId \<Rightarrow>
          (case findBestMatch_seq cfg (getPixelColor blueprint x y) candidates previousChoiceId of
             None \<Rightarrow> Inr None
           | Some bestTextureInfo \<Rightarrow> Inr (Some (textureId bestTextureInfo))))"

definition processImageFrame :: "config \<Rightarrow> image \<Rightarrow> candidate list \<Rightarrow> choice_grid option
                                   \<Rightarrow> error + choice_grid" where
  "processImageFrame cfg blueprint candidates previousFrameChoices =
     traverse (\<lambda>y. traverse (frame_cell cfg blueprint candidates previousFrameChoices y)
                      [0..<img_width blueprint])
       [0..<img_height blueprint]"

section \<open>Blueprint encoding\<close>

text \<open>
  The blueprint string is modelled as the list of its code points, one per
  \<open>String.fromCodePoint\<close> call, which throws a \<open>RangeError\<close> above \<open>0x10FFFF\<close>. A cell
  read beyond the end of its row is \<open>undefined\<close>, which is not \<open>null\<close> and indexes no
  palette entry, so its block id stays 0. With no rows nothing is written (\<open>None\<close>).
\<close>

definition UNICODE_PRIVATE_USE_START :: nat where
  "UNICODE_PRIVATE_USE_START = 0xE000"

definition fromCodePoint :: "nat \<Rightarrow> error + nat" where
  "fromCodePoint charCode = (if charCode > 0x10FFFF then Inl RangeError else Inr charCode)"

definition cell_blockId :: "texture list \<Rightarrow> nat option \<Rightarrow> nat" where
  "cell_blockId texturePalette cell =
     (case cell of
        None \<Rightarrow> 0
      | Some tid \<Rightarrow>
          if tid < length texturePalette
          then (case blockIds (texturePalette ! tid) of
                  None \<Rightarrow> 0
                | Some [] \<Rightarrow> 0
                | Some (first # others) \<Rightarrow> first)
          else 0)"

definition encode_cell :: "texture list \<Rightarrow> choice_grid \<Rightarrow> nat \<times> nat \<Rightarrow> error + nat" where
  "encode_cell texturePalette choicesGrid yx =
     (case yx of (y, x) \<Rightarrow>
        (let blockId = (if x < length (choicesGrid ! y)
                        then cell_blockId texturePalette (choicesGrid ! y ! x) else 0)
         in fromCodePoint (UNICODE_PRIVATE_USE_START + blockId)))"

record blueprint =
  blockMapString :: "nat list"
  bp_width :: nat
  bp_height :: nat

definition generateBlueprintFiles :: "choice_grid \<Rightarrow> texture list \<Rightarrow> error + blueprint option" where
  "generateBlueprintFiles choicesGrid texturePalette =
     (let height = length choicesGrid
      in if height = 0 then Inr None
         else (let width = length (choicesGrid ! 0)
               in case traverse (encode_cell texturePalette choicesGrid)
                         (List.product [0..<height] [0..<width]) of
                    Inl e \<Rightarrow> Inl e
                  | Inr stringBuilder \<Rightarrow>
                      Inr (Some \<lparr>blockMapString = stringBuilder, bp_width = width, bp_height = height\<rparr>)))"

text \<open>
  The symbols written, none when no file is written; and the decoder of the claims, each
  symbol minus the base as an integer.
\<close>

definition symbols_of :: "blueprint option \<Rightarrow> nat list" where
  "symbols_of out = (case out of None \<Rightarrow> [] | Some bp \<Rightarrow> blockMapString bp)"

definition decode :: "nat list \<Rightarrow> int list" where
  "decode symbols = map (\<lambda>s. int s - int UNICODE_PRIVATE_USE_START) symbols"

definition rectangular :: "nat \<Rightarrow> choice_grid \<Rightarrow> bool" where
  "rectangular w choicesGrid \<longleftrightarrow> list_all (\<lambda>row. length row = w) choicesGrid"

definition MAX_BLOCK_ID :: nat where
  "MAX_BLOCK_ID = 0x10FFFF - 0xE000"

definition palette_ok :: "texture list \<Rightarrow> bool" where
  "palette_ok texturePalette \<longleftrightarrow>
     list_all (\<lambda>t. case blockIds t of
                     None \<Rightarrow> True
                   | Some bs \<Rightarrow> sorted bs \<and> list_all (\<lambda>b. b \<le> MAX_BLOCK_ID) bs) texturePalette"

text \<open>
  What the round trip needs of the palette, for the textures the grid names only: the
  \<open>blockIds\<close> list of a chosen texture is ascending and its first entry keeps the code
  point in range. A palette whose lists are all ascending and in range meets it.
\<close>

definition chosen_ok :: "texture list \<Rightarrow> nat option \<Rightarrow> bool" where
  "chosen_ok texturePalette cell \<longleftrightarrow>
     (case cell of
        None \<Rightarrow> True
      | Some tid \<Rightarrow>
          if tid < length texturePalette
          then (case blockIds (texturePalette ! tid) of
                  None \<Rightarrow> True
                | Some bs \<Rightarrow> sorted bs \<and> (bs \<noteq> [] \<longrightarrow> hd bs \<le> MAX_BLOCK_ID))
          else True)"

definition choices_ok :: "texture list \<Rightarrow> choice_grid \<Rightarrow> bool" where
  "choices_ok texturePalette choicesGrid \<longleftrightarrow>
     list_all (list_all (chosen_ok texturePalette)) choicesGrid"

definition malformed_choice :: "texture list \<Rightarrow> nat \<Rightarrow> bool" where
  "malformed_choice texturePalette tid \<longleftrightarrow>
     tid \<ge> length texturePalette \<or> blockIds (texturePalette ! tid) = None
       \<or> blockIds (texturePalette ! tid) = Some []"

text \<open>
  The block id a cell stands for in the words of the claims: 0 for a cell with no texture,
  the smallest entry of the chosen texture's \<open>blockIds\<close> otherwise, and 0 again when
  the texture id has no palette entry or the entry has no block id.
\<close>

definition smallest_block_id :: "texture list \<Rightarrow> nat option \<Rightarrow> nat" where
  "smallest_block_id texturePalette cell =
     (case cell of
        None \<Rightarrow> 0
      | Some tid \<Rightarrow>
          if tid < length texturePalette
          then (case blockIds (texturePalette ! tid) of
                  None \<Rightarrow> 0
                | Some bs \<Rightarrow> if bs = [] then 0 else Min (set bs))
          else 0)"

section \<open>The texture indexer and the generator of included block ids\<close>

text \<open>
  The block mapping is a JSON object keyed by block id; the entries are its distinct
  keys, as strings, in \<open>Object.entries\<close> order. The exclusion set is tested on the key
  itself, and the number written is \<open>parseInt(key, 10)\<close>. \<open>parseInt10\<close> is that number
  for a key that starts with a decimal digit: the value of its leading digits. On any
  other key JavaScript skips white space, reads a sign or yields \<open>NaN\<close>; the model has
  none of these and gives 0 there. A block names its faces and, per face, an index into
  its own list of texture references (atlas file, position on the atlas). Reading and
  analysing the atlas image is a collaborator, \<open>analyze\<close>, which may fail.
\<close>

definition decDigit :: "char \<Rightarrow> nat option" where
  "decDigit c = (let n = of_char c :: nat in if 48 \<le> n \<and> n \<le> 57 then Some (n - 48) else None)"

definition parseInt10 :: "string \<Rightarrow> nat" where
  "parseInt10 s =
     foldl (\<lambda>acc c. 10 * acc + (case decDigit c of Some d \<Rightarrow> d | None \<Rightarrow> 0)) 0
       (takeWhile (\<lambda>c. decDigit c \<noteq> None) s)"

record blockData =
  name :: string
  faceMap :: "(string \<times> nat) list"
  texturePalette :: "(nat \<times> nat) list"

record analysis =
  an_hasTransparency :: bool
  an_colorCount :: nat
  an_colorHexes :: "string list"
  an_colorPixelCounts :: "nat list"

fun str_includes :: "string \<Rightarrow> string \<Rightarrow> bool" where
  "str_includes [] pat = (pat = [])"
| "str_includes (c # cs) pat = (prefix pat (c # cs) \<or> str_includes cs pat)"

definition idsToSkip :: "string set" where
  "idsToSkip = {''1'', ''127'', ''655'', ''656'', ''657'', ''658'', ''659'', ''660'',
                ''1227'', ''1228'', ''1229'', ''1230'', ''1231'', ''1232''}"

definition getSimpleFaceName :: "string \<Rightarrow> string" where
  "getSimpleFaceName complexFaceName =
     (if str_includes complexFaceName ''Top'' then ''top''
      else if str_includes complexFaceName ''Bottom'' then ''bottom''
      else if str_includes complexFaceName ''Front'' then ''front''
      else if str_includes complexFaceName ''Back'' then ''back''
      else if str_includes complexFaceName ''Right'' then ''right''
      else if str_includes complexFaceName ''Left'' then ''left''
      else ''unknown'')"

record indexer_state =
  st_texturePalette :: "texture list"
  st_blockMap :: "string \<rightharpoonup> string"
  st_faceIndex :: "(string \<times> (string \<times> nat list) list) list"
  st_includedBlockIds :: "nat list"
  st_textureCache :: "nat \<times> nat \<rightharpoonup> nat"
  st_textureIdToBlockIds :: "nat \<rightharpoonup> nat list"

definition initial_state :: indexer_state where
  "initial_state =
     \<lparr>st_texturePalette = [], st_blockMap = Map.empty,
      st_faceIndex = [(''top'', []), (''bottom'', []), (''front'', []), (''back'', []),
                      (''left'', []), (''right'', [])],
      st_includedBlockIds = [], st_textureCache = Map.empty,
      st_textureIdToBlockIds = Map.empty\<rparr>"

definition add_color :: "nat \<Rightarrow> string \<Rightarrow> (string \<times> nat list) list \<Rightarrow> (string \<times> nat list) list" where
  "add_color tid colorHex colors =
     (case map_of colors colorHex of
        None \<Rightarrow> colors @ [(colorHex, [tid])]
      | Some ids \<Rightarrow> if tid \<in> set ids then colors else AList.update colorHex (ids @ [tid]) colors)"

definition index_face :: "string \<Rightarrow> nat \<Rightarrow> string list
                            \<Rightarrow> (string \<times> (string \<times> nat list) list) list
                            \<Rightarrow> (string \<times> (string \<times> nat list) list) list" where
  "index_face simpleFaceName tid hexes faceIndex =
     (case map_of faceIndex simpleFaceName of
        None \<Rightarrow> faceIndex
      | Some colors \<Rightarrow> AList.update simpleFaceName (fold (add_color tid) hexes colors) faceIndex)"

definition face_step :: "(nat \<times> nat \<Rightarrow> analysis option) \<Rightarrow> nat \<Rightarrow> blockData \<Rightarrow> string \<times> nat
                           \<Rightarrow> indexer_state \<Rightarrow> error + indexer_state" where
  "face_step analyze parsedBlockId blockData face st =
     (case face of (complexFaceName, paletteIndex) \<Rightarrow>
        if paletteIndex \<ge> length (texturePalette blockData) then Inr st
        else
          (let cacheKey = texturePalette blockData ! paletteIndex;
               fresh = (case st_textureCache st cacheKey of
                          Some tid \<Rightarrow> Inr (tid, st)
                        | None \<Rightarrow>
                            (case analyze cacheKey of
                               None \<Rightarrow> Inl CollaboratorFailure
                             | Some a \<Rightarrow>
                                 (let tid = length (st_texturePalette st)
                                  in Inr (tid,
                                       st\<lparr>st_textureCache := (st_textureCache st)(cacheKey \<mapsto> tid),
                                          st_texturePalette := st_texturePalette st @
                                            [\<lparr>textureId = tid, atlasFileIndex = fst cacheKey,
                                              textureIndexOnAtlas = snd cacheKey,
                                              hasTransparency = an_hasTransparency a,
                                              colorCount = an_colorCount a,
                                              colorHexes = an_colorHexes a,
                                              colorPixelCounts = an_colorPixelCounts a,
                                              blockIds = None\<rparr>]\<rparr>))))
           in case fresh of
                Inl e \<Rightarrow> Inl e
              | Inr (tid, st1) \<Rightarrow>
                  (let owners = (case st_textureIdToBlockIds st1 tid of None \<Rightarrow> [] | Some bs \<Rightarrow> bs);
                       st2 = st1\<lparr>st_textureIdToBlockIds :=
                                   (st_textureIdToBlockIds st1)(tid \<mapsto> List.insert parsedBlockId owners)\<rparr>;
                       simpleFaceName = getSimpleFaceName complexFaceName
                   in if simpleFaceName = ''unknown'' then Inr st2
                      else Inr (st2\<lparr>st_faceIndex :=
                                     index_face simpleFaceName tid
                                       (colorHexes (st_texturePalette st2 ! tid)) (st_faceIndex st2)\<rparr>))))"

fun faces_loop :: "(nat \<times> nat \<Rightarrow> analysis option) \<Rightarrow> nat \<Rightarrow> blockData \<Rightarrow> (string \<times> nat) list
                     \<Rightarrow> indexer_state \<Rightarrow> error + indexer_state" where
  "faces_loop analyze parsedBlockId blockData [] st = Inr st"
| "faces_loop analyze parsedBlockId blockData (face # faces) st =
     (case face_step analyze parsedBlockId blockData face st of
        Inl e \<Rightarrow> Inl e
      | Inr st' \<Rightarrow> faces_loop analyze parsedBlockId blockData faces st')"

fun blocks_loop :: "(nat \<times> nat \<Rightarrow> analysis option) \<Rightarrow> (string \<times> blockData) list
                      \<Rightarrow> indexer_state \<Rightarrow> error + indexer_state" where
  "blocks_loop analyze [] st = Inr st"
| "blocks_loop analyze ((blockId, blockData) # rest) st =
     (if str_includes (name blockData) ''Slab'' then blocks_loop analyze rest st
      else if blockId \<in> idsToSkip then blocks_loop analyze rest st
      else case faces_loop analyze (parseInt10 blockId) blockData (faceMap blockData)
                  (st\<lparr>st_includedBlockIds := st_includedBlockIds st @ [parseInt10 blockId],
                      st_blockMap := (st_blockMap st)(blockId \<mapsto> name blockData)\<rparr>) of
             Inl e \<Rightarrow> Inl e
           | Inr st' \<Rightarrow> blocks_loop analyze rest st')"

record index_output =
  finalData :: textureData
  includedBlockIds :: "nat list"

definition indexer_main :: "(nat \<times> nat \<Rightarrow> analysis option) \<Rightarrow> (string \<times> blockData) list
                              \<Rightarrow> error + index_output" where
  "indexer_main analyze mapData =
     (case blocks_loop analyze mapData initial_state of
        Inl e \<Rightarrow> Inl e
      | Inr st \<Rightarrow>
          Inr \<lparr>finalData =
                 \<lparr>texture_palette =
                    map (\<lambda>texture.
                           texture\<lparr>blockIds :=
                             Some (case st_textureIdToBlockIds st (textureId texture) of
                                     None \<Rightarrow> []
                                   | Some blockIdSet \<Rightarrow> sort blockIdSet)\<rparr>)
                      (st_texturePalette st),
                  block_map = st_blockMap st,
                  face_index = map_of (st_faceIndex st)\<rparr>,
               includedBlockIds = sort (st_includedBlockIds st)\<rparr>)"

text \<open>
  The companion script \<open>generate_included_blockids.js\<close>, which announces its output as the
  blocks "that are included in the final texture index".
\<close>

fun generator_loop :: "(string \<times> blockData) list \<Rightarrow> nat list \<Rightarrow> nat list" where
  "generator_loop [] includedIds = includedIds"
| "generator_loop ((blockId, blockData) # rest) includedIds =
     (if str_includes (name blockData) ''Slab'' then generator_loop rest includedIds
      else generator_loop rest
             (if parseInt10 blockId \<in> set includedIds then includedIds
              else includedIds @ [parseInt10 blockId]))"

definition generate_included_blockids :: "(string \<times> blockData) list \<Rightarrow> nat list" where
  "generate_included_blockids mapData = sort (generator_loop mapData [])"

definition excluded :: "string \<times> blockData \<Rightarrow> bool" where
  "excluded entry \<longleftrightarrow> str_includes (name (snd entry)) ''Slab'' \<or> fst entry \<in> idsToSkip"

section \<open>Sample data\<close>

definition flat_texture :: texture where
  "flat_texture = \<lparr>textureId = 0, atlasFileIndex = 0, textureIndexOnAtlas = 0, hasTransparency = False,
     colorCount = 1, colorHexes = [''#ff8000''], colorPixelCounts = [64], blockIds = Some [5, 9]\<rparr>"

definition two_tone_texture :: texture where
  "two_tone_texture = \<lparr>textureId = 1, atlasFileIndex = 0, textureIndexOnAtlas = 1, hasTransparency = False,
     colorCount = 2, colorHexes = [''#000000'', ''#010000''], colorPixelCounts = [48, 16],
     blockIds = Some [7]\<rparr>"

text \<open>Three single-colour textures on the red axis, as candidates, and a configuration.\<close>

definition sample_texture :: "nat \<Rightarrow> string \<Rightarrow> texture" where
  "sample_texture tid hex = \<lparr>textureId = tid, atlasFileIndex = 0, textureIndexOnAtlas = tid,
     hasTransparency = False, colorCount = 1, colorHexes = [hex], colorPixelCounts = [64],
     blockIds = Some [tid + 10]\<rparr>"

definition cand_far :: candidate where
  "cand_far = \<lparr>textureInfo = sample_texture 0 ''#140000'',
               perceivedColor = \<lparr>rgb_r = 20, rgb_g = 0, rgb_b = 0\<rparr>\<rparr>"

definition cand_near :: candidate where
  "cand_near = \<lparr>textureInfo = sample_texture 1 ''#030000'',
                perceivedColor = \<lparr>rgb_r = 3, rgb_g = 0, rgb_b = 0\<rparr>\<rparr>"

definition cand_mid :: candidate where
  "cand_mid = \<lparr>textureInfo = sample_texture 2 ''#0a0000'',
               perceivedColor = \<lparr>rgb_r = 10, rgb_g = 0, rgb_b = 0\<rparr>\<rparr>"

definition sample_candidates :: "candidate list" where
  "sample_candidates = [cand_far, cand_near, cand_mid]"

definition black :: rgb where
  "black = \<lparr>rgb_r = 0, rgb_g = 0, rgb_b = 0\<rparr>"

definition sample_config :: config where
  "sample_config = \<lparr>faceDirection = ''back'', textureSwitchThreshold = 15, maxVariance = Some 20,
     searchDepth = None, maxColorCount = None, allowTransparency = False\<rparr>"

definition black_frame :: image where
  "black_frame = \<lparr>img_width = 2, img_height = 1, getPixelColor = (\<lambda>x y. black)\<rparr>"

text \<open>An index with both sample textures on the back face.\<close>

definition sample_index :: textureData where
  "sample_index = \<lparr>texture_palette = [flat_texture, two_tone_texture],
     block_map = Map.empty,
     face_index = map_of [(''back'', [(''#ff8000'', [0]), (''#000000'', [1]), (''#010000'', [1])])]\<rparr>"

text \<open>A texture owned by a block whose id lies beyond the last code point, and an orphan.\<close>

definition big_texture :: texture where
  "big_texture = (sample_texture 0 ''#000000'')\<lparr>blockIds := Some [1056768]\<rparr>"

definition orphan_texture :: texture where
  "orphan_texture = (sample_texture 1 ''#ffffff'')\<lparr>blockIds := Some []\<rparr>"

definition sample_palette :: "texture list" where
  "sample_palette = [flat_texture, orphan_texture]"

definition sample_grid :: choice_grid where
  "sample_grid = [[Some 0, None], [Some 1, Some 4]]"

text \<open>A block mapping with a block of the exclusion set, an ordinary block and a slab.\<close>

definition sample_map :: "(string \<times> blockData) list" where
  "sample_map =
     [(''1'', \<lparr>name = ''Air'', faceMap = [(''Top'', 0)], texturePalette = [(0, 0)]\<rparr>),
      (''2'', \<lparr>name = ''Dirt'', faceMap = [(''Top'', 0), (''Front'', 0)], texturePalette = [(0, 1)]\<rparr>),
      (''3'', \<lparr>name = ''Stone Slab'', faceMap = [(''Top'', 0)], texturePalette = [(0, 2)]\<rparr>)]"

text \<open>A mapping whose only key reads as 1 without being the key \<open>1\<close>.\<close>

definition padded_map :: "(string \<times> blockData) list" where
  "padded_map =
     [(''01'', \<lparr>name = ''Air'', faceMap = [(''Top'', 0)], texturePalette = [(0, 0)]\<rparr>)]"

definition sample_analyze :: "nat \<times> nat \<Rightarrow> analysis option" where
  "sample_analyze key = Some \<lparr>an_hasTransparency = False, an_colorCount = 1,
     an_colorHexes = [''#808080''], an_colorPixelCounts = [64]\<rparr>"

section \<open>Properties of the perceived colour\<close>

lemma hexDigit_digitChar: "d < 16 \<Longrightarrow> hexDigit (digitChar d) = Some (int d)"
  by (simp add: hexDigit_def digitChar_def Let_def)

lemma parseInt16_toHex2: "c < 256 \<Longrightarrow> parseInt16 (toHex2 c) = int c"
proof -
  assume c: "c < 256"
  have z: "hexDigit CHR ''0'' = Some 0"
    by (simp add: hexDigit_def)
  show ?thesis
  proof (cases "c < 16")
    case True
    then show ?thesis
      by (simp add: parseInt16_def toHex2_def z hexDigit_digitChar)
  next
    case False
    have hi: "c div 16 < 16" using c by simp
    have lo: "c mod 16 < 16" by simp
    have "16 * int (c div 16) + int (c mod 16) = int c"
      by (simp add: zdiv_int zmod_int)
    with False show ?thesis
      by (simp add: parseInt16_def toHex2_def hexDigit_digitChar [OF hi] hexDigit_digitChar [OF lo])
  qed
qed




lemmas hex_eval = hexToRgb_def parseInt16_def slice_def hexDigit_def

text \<open>Reading back a key the analyzer wrote gives the pixel's channels.\<close>

lemma hexToRgb_colorKey:
  assumes "rv < 256" and "gv < 256" and "bv < 256"
  shows "hexToRgb (colorKey rv gv bv) = Some \<lparr>rgb_r = int rv, rgb_g = int gv, rgb_b = int bv\<rparr>"
proof -
  have len: "length (toHex2 c) = 2" for c
    by (simp add: toHex2_def)
  have "length (colorKey rv gv bv) = 7"
    by (simp add: colorKey_def len)
  then have ne: "colorKey rv gv bv \<noteq> ''#transparent''"
    by auto
  have s1: "slice 1 3 (colorKey rv gv bv) = toHex2 rv"
    using len [of rv] by (simp add: slice_def colorKey_def)
  have s2: "slice 3 5 (colorKey rv gv bv) = toHex2 gv"
    using len [of rv] len [of gv] by (simp add: slice_def colorKey_def)
  have s3: "slice 5 7 (colorKey rv gv bv) = toHex2 bv"
    using len [of rv] len [of gv] len [of bv] by (simp add: slice_def colorKey_def)
  have "hexToRgb (colorKey rv gv bv) =
          Some \<lparr>rgb_r = parseInt16 (toHex2 rv), rgb_g = parseInt16 (toHex2 gv),
                rgb_b = parseInt16 (toHex2 bv)\<rparr>"
    unfolding hexToRgb_def s1 s2 s3 using ne by simp
  then show ?thesis
    using assms by (simp add: parseInt16_toHex2)
qed

lemma perceived_limit_ge1: "depth \<ge> 1 \<Longrightarrow> colorHexes t = [hex] \<Longrightarrow> perceived_limit t depth = 1"
  by (cases depth) (auto simp: perceived_limit_def one_enat_def)

text \<open>
  Claim C8. For a texture whose histogram is one fully opaque colour entry (a well-formed
  key other than \<open>#transparent\<close>, with a positive pixel count), \<open>calculatePerceivedColor\<close>
  returns the colour that key denotes, for every search depth of at least 1, finite or
  unbounded.
\<close>

theorem C8_single_opaque_color:
  assumes "colorHexes t = [hex]" and "colorPixelCounts t = [count]"
    and "wf_hex hex" and "hex \<noteq> ''#transparent''" and "count > 0" and "depth \<ge> 1"
  shows "calculatePerceivedColor t depth = hexToRgb hex \<and> hexToRgb hex \<noteq> None"
proof -
  obtain c where c: "hexToRgb hex = Some c"
    using assms(4) by (simp add: hexToRgb_def)
  have lim: "perceived_limit t depth = 1"
    using assms(1,6) by (rule perceived_limit_ge1[rotated])
  have nz: "real count \<noteq> 0" using assms(5) by simp
  show ?thesis
    using assms(1,2) nz
    by (simp add: calculatePerceivedColor_def lim perceived_body_def c Let_def)
qed

theorem C8_witness:
  "calculatePerceivedColor flat_texture 1 = Some \<lparr>rgb_r = 255, rgb_g = 128, rgb_b = 0\<rparr> \<and>
   calculatePerceivedColor flat_texture \<infinity> = Some \<lparr>rgb_r = 255, rgb_g = 128, rgb_b = 0\<rparr>"
  using C8_single_opaque_color [of flat_texture "''#ff8000''" 64 1]
        C8_single_opaque_color [of flat_texture "''#ff8000''" 64 \<infinity>]
  by (simp add: flat_texture_def wf_hex_def hex_eval)

subsection \<open>The variance as a weighted average\<close>

lemma map_filter_append: "List.map_filter f (xs @ ys) = List.map_filter f xs @ List.map_filter f ys"
  by (simp add: List.map_filter_def)

lemma entries_upto_0: "entries_upto t 0 = []"
  by (simp add: entries_upto_def)

lemma entries_upto_Suc:
  assumes "n < length (colorHexes t)" "length (colorPixelCounts t) = length (colorHexes t)"
  shows "entries_upto t (Suc n) =
           entries_upto t n @
             (case hexToRgb (colorHexes t ! n) of None \<Rightarrow> [] | Some c \<Rightarrow> [(c, colorPixelCounts t ! n)])"
proof -
  have "n < length (zip (colorHexes t) (colorPixelCounts t))"
    using assms by simp
  then have "take (Suc n) (zip (colorHexes t) (colorPixelCounts t)) =
      take n (zip (colorHexes t) (colorPixelCounts t)) @ [(colorHexes t ! n, colorPixelCounts t ! n)]"
    by (simp add: take_Suc_conv_app_nth)
  then show ?thesis
    by (simp add: entries_upto_def map_filter_append split: option.split)
qed

lemma entries_upto_all:
  "length (colorPixelCounts t) = length (colorHexes t) \<Longrightarrow>
   entries_upto t (length (colorHexes t)) = opaque_entries t"
  by (simp add: entries_upto_def opaque_entries_def)

lemma weight_sum_Nil: "weight_sum [] f = 0"
  by (simp add: weight_sum_def)

lemma weight_sum_append: "weight_sum (xs @ ys) f = weight_sum xs f + weight_sum ys f"
  by (simp add: weight_sum_def)

lemma weight_sum_single: "weight_sum [(c, k)] f = f c * real k"
  by (simp add: weight_sum_def)

lemma perceived_body_totals:
  "real_of_int (totalR (perceived_body t n s)) =
     real_of_int (totalR s) + weight_sum (entry_at t n) (\<lambda>c. real_of_int (rgb_r c))"
  "real_of_int (totalG (perceived_body t n s)) =
     real_of_int (totalG s) + weight_sum (entry_at t n) (\<lambda>c. real_of_int (rgb_g c))"
  "real_of_int (totalB (perceived_body t n s)) =
     real_of_int (totalB s) + weight_sum (entry_at t n) (\<lambda>c. real_of_int (rgb_b c))"
  "real_of_int (totalPixels (perceived_body t n s)) =
     real_of_int (totalPixels s) + weight_sum (entry_at t n) (\<lambda>c. 1)"
  by (simp_all add: perceived_body_def entry_at_def Let_def weight_sum_Nil weight_sum_single
        split: option.split)

lemma variance_body_totals:
  "fst (variance_body t m n s) = fst s + weight_sum (entry_at t n) (\<lambda>c. colorDistance c m)"
  "real_of_int (snd (variance_body t m n s)) =
     real_of_int (snd s) + weight_sum (entry_at t n) (\<lambda>c. 1)"
  by (simp_all add: variance_body_def entry_at_def Let_def weight_sum_Nil weight_sum_single
        split: option.split)

lemma entries_upto_step:
  "n < length (colorHexes t) \<Longrightarrow> length (colorPixelCounts t) = length (colorHexes t) \<Longrightarrow>
   weight_sum (entries_upto t (Suc n)) f = weight_sum (entries_upto t n) f + weight_sum (entry_at t n) f"
  by (simp add: entries_upto_Suc entry_at_def weight_sum_append)

lemma perceived_fold:
  assumes "length (colorPixelCounts t) = length (colorHexes t)"
  shows "n \<le> length (colorHexes t) \<Longrightarrow>
         real_of_int (totalR (fold (perceived_body t) [0..<n] s)) =
           real_of_int (totalR s) + weight_sum (entries_upto t n) (\<lambda>c. real_of_int (rgb_r c))
       \<and> real_of_int (totalG (fold (perceived_body t) [0..<n] s)) =
           real_of_int (totalG s) + weight_sum (entries_upto t n) (\<lambda>c. real_of_int (rgb_g c))
       \<and> real_of_int (totalB (fold (perceived_body t) [0..<n] s)) =
           real_of_int (totalB s) + weight_sum (entries_upto t n) (\<lambda>c. real_of_int (rgb_b c))
       \<and> real_of_int (totalPixels (fold (perceived_body t) [0..<n] s)) =
           real_of_int (totalPixels s) + weight_sum (entries_upto t n) (\<lambda>c. 1)"
proof (induction n)
  case 0
  then show ?case by (simp add: entries_upto_0 weight_sum_Nil)
next
  case (Suc n)
  then have n: "n < length (colorHexes t)"
    by simp
  have unroll: "fold (perceived_body t) [0..<Suc n] s = perceived_body t n (fold (perceived_body t) [0..<n] s)"
    by simp
  from Suc n show ?case
    unfolding unroll
    by (simp only: perceived_body_totals entries_upto_step [OF n assms]) simp
qed

lemma variance_fold:
  assumes "length (colorPixelCounts t) = length (colorHexes t)"
  shows "n \<le> length (colorHexes t) \<Longrightarrow>
         fst (fold (variance_body t m) [0..<n] s) =
           fst s + weight_sum (entries_upto t n) (\<lambda>c. colorDistance c m)
       \<and> real_of_int (snd (fold (variance_body t m) [0..<n] s)) =
           real_of_int (snd s) + weight_sum (entries_upto t n) (\<lambda>c. 1)"
proof (induction n)
  case 0
  then show ?case by (simp add: entries_upto_0 weight_sum_Nil)
next
  case (Suc n)
  then have n: "n < length (colorHexes t)"
    by simp
  have unroll: "fold (variance_body t m) [0..<Suc n] s = variance_body t m n (fold (variance_body t m) [0..<n] s)"
    by simp
  from Suc n show ?case
    unfolding unroll
    by (simp only: variance_body_totals entries_upto_step [OF n assms]) simp
qed


lemma perceived_unbounded:
  assumes "length (colorPixelCounts t) = length (colorHexes t)"
  shows "calculatePerceivedColor t \<infinity> =
           (let es = opaque_entries t; n = weight_sum es (\<lambda>c. 1)
            in if n = 0 then None
               else Some \<lparr>rgb_r = round (weight_sum es (\<lambda>c. real_of_int (rgb_r c)) / n),
                          rgb_g = round (weight_sum es (\<lambda>c. real_of_int (rgb_g c)) / n),
                          rgb_b = round (weight_sum es (\<lambda>c. real_of_int (rgb_b c)) / n)\<rparr>)"
proof -
  define S where "S = fold (perceived_body t) [0..<length (colorHexes t)]
                        \<lparr>totalR = 0, totalG = 0, totalB = 0, totalPixels = 0\<rparr>"
  have sums:
    "real_of_int (totalR S) = weight_sum (opaque_entries t) (\<lambda>c. real_of_int (rgb_r c))"
    "real_of_int (totalG S) = weight_sum (opaque_entries t) (\<lambda>c. real_of_int (rgb_g c))"
    "real_of_int (totalB S) = weight_sum (opaque_entries t) (\<lambda>c. real_of_int (rgb_b c))"
    "real_of_int (totalPixels S) = weight_sum (opaque_entries t) (\<lambda>c. 1)"
    using perceived_fold [OF assms, of "length (colorHexes t)"
            "\<lparr>totalR = 0, totalG = 0, totalB = 0, totalPixels = 0\<rparr>"]
    by (simp_all add: S_def entries_upto_all [OF assms])
  have zero: "totalPixels S = 0 \<longleftrightarrow> weight_sum (opaque_entries t) (\<lambda>c. 1) = 0"
    using sums(4) by (metis of_int_eq_0_iff)
  have "calculatePerceivedColor t \<infinity> =
          (if totalPixels S = 0 then None
           else Some \<lparr>rgb_r = round (real_of_int (totalR S) / real_of_int (totalPixels S)),
                      rgb_g = round (real_of_int (totalG S) / real_of_int (totalPixels S)),
                      rgb_b = round (real_of_int (totalB S) / real_of_int (totalPixels S))\<rparr>)"
    by (simp add: calculatePerceivedColor_def perceived_limit_def S_def Let_def)
  then show ?thesis
    by (simp only: sums zero Let_def)
qed

lemma variance_unbounded:
  assumes len: "length (colorPixelCounts t) = length (colorHexes t)"
    and many: "\<not> colorCount t \<le> 1"
  shows "calculateColorVariance t = variance_rounded t"
proof -
  define es where "es = opaque_entries t"
  define n where "n = weight_sum es (\<lambda>c. 1)"
  show ?thesis
  proof (cases "n = 0")
    case True
    then show ?thesis
      using many
      by (simp add: calculateColorVariance_def variance_rounded_def perceived_unbounded [OF len]
            es_def n_def Let_def)
  next
    case False
    define m where "m = \<lparr>rgb_r = round (weight_sum es (\<lambda>c. real_of_int (rgb_r c)) / n),
                          rgb_g = round (weight_sum es (\<lambda>c. real_of_int (rgb_g c)) / n),
                          rgb_b = round (weight_sum es (\<lambda>c. real_of_int (rgb_b c)) / n)\<rparr>"
    define V where "V = fold (variance_body t m) [0..<length (colorHexes t)] (0, 0)"
    have mean: "calculatePerceivedColor t \<infinity> = Some m"
      using False by (simp add: perceived_unbounded [OF len] es_def n_def m_def Let_def)
    have V: "fst V = weight_sum es (\<lambda>c. colorDistance c m)" "real_of_int (snd V) = n"
      using variance_fold [OF len, of "length (colorHexes t)" m "(0, 0)"]
      by (simp_all add: V_def entries_upto_all [OF len] es_def n_def)
    have nz: "snd V \<noteq> 0"
      using V(2) False by auto
    have "calculateColorVariance t = fst V / real_of_int (snd V)"
      using many nz by (simp add: calculateColorVariance_def mean V_def Let_def)
    also have "\<dots> = weight_sum es (\<lambda>c. colorDistance c m) / n"
      by (simp only: V)
    also have "\<dots> = variance_rounded t"
      using False by (simp add: variance_rounded_def es_def n_def m_def Let_def)
    finally show ?thesis .
  qed
qed

lemma colorDistance_self: "colorDistance c c = 0"
  by (simp add: colorDistance_def)

lemma variance_rounded_few:
  assumes len: "length (colorPixelCounts t) = length (colorHexes t)"
    and few: "length (colorHexes t) \<le> 1"
  shows "variance_rounded t = 0"
proof (cases "opaque_entries t")
  case Nil
  then show ?thesis
    by (simp add: variance_rounded_def weight_sum_Nil)
next
  case (Cons e es)
  have "length (opaque_entries t) \<le> 1"
    using few len by (cases "colorHexes t"; cases "colorPixelCounts t")
      (auto simp: opaque_entries_def split: option.splits)
  with Cons have es: "es = []"
    by simp
  obtain c k where e: "e = (c, k)"
    by (cases e)
  show ?thesis
  proof (cases "k = 0")
    case True
    then show ?thesis
      by (simp add: variance_rounded_def Cons es e weight_sum_single)
  next
    case False
    then have "\<lparr>rgb_r = round (real_of_int (rgb_r c) * real k / real k),
               rgb_g = round (real_of_int (rgb_g c) * real k / real k),
               rgb_b = round (real_of_int (rgb_b c) * real k / real k)\<rparr> = c"
      by simp
    then show ?thesis
      using False
      by (simp add: variance_rounded_def Cons es e weight_sum_single Let_def colorDistance_def)
  qed
qed

text \<open>
  Claim C7, as amended. A texture with \<open>colorCount \<le> 1\<close> has variance exactly 0. For a
  well-formed texture the variance is the pixel-count-weighted average Euclidean distance
  of the opaque histogram colours from the weighted mean colour of the whole histogram
  after that mean has been rounded to integer channels (the perceived colour at unbounded
  depth), and 0 when the histogram has no opaque pixel.
\<close>

theorem C7_variance_from_rounded_mean:
  "(colorCount t \<le> 1 \<longrightarrow> calculateColorVariance t = 0) \<and>
   (wf_texture t \<longrightarrow> calculateColorVariance t = variance_rounded t)"
proof (intro conjI impI)
  show "calculateColorVariance t = 0" if "colorCount t \<le> 1"
    using that by (simp add: calculateColorVariance_def)
next
  assume wf: "wf_texture t"
  then have len: "length (colorPixelCounts t) = length (colorHexes t)"
    and cnt: "colorCount t = length (colorHexes t)"
    by (simp_all add: wf_texture_def)
  show "calculateColorVariance t = variance_rounded t"
  proof (cases "colorCount t \<le> 1")
    case True
    then show ?thesis
      using variance_rounded_few [OF len] cnt by (simp add: calculateColorVariance_def)
  next
    case False
    then show ?thesis
      by (rule variance_unbounded [OF len])
  qed
qed


lemma two_tone_entries:
  "opaque_entries two_tone_texture =
     [(\<lparr>rgb_r = 0, rgb_g = 0, rgb_b = 0\<rparr>, 48), (\<lparr>rgb_r = 1, rgb_g = 0, rgb_b = 0\<rparr>, 16)]"
  by (simp add: opaque_entries_def two_tone_texture_def hex_eval)

lemma two_tone_wf: "wf_texture two_tone_texture"
  by (simp add: wf_texture_def two_tone_texture_def wf_hex_def hexDigit_def)

lemma flat_wf: "wf_texture flat_texture"
  by (simp add: wf_texture_def flat_texture_def wf_hex_def hexDigit_def)

lemma two_tone_rounded: "variance_rounded two_tone_texture = 1 / 4"
  by (simp add: variance_rounded_def two_tone_entries weight_sum_def Let_def colorDistance_def round_def)

lemma sqrt_sixteenth: "sqrt (1 / 16) = 1 / 4"
  by (rule real_sqrt_unique) (simp_all add: power2_eq_square)

lemma sqrt_nine_sixteenth: "sqrt (9 / 16) = 3 / 4"
  by (rule real_sqrt_unique) (simp_all add: power2_eq_square)

lemma two_tone_spec: "variance_spec two_tone_texture = 3 / 8"
  by (simp add: variance_spec_def two_tone_entries weight_sum_def Let_def exact_distance_def
        power2_eq_square sqrt_sixteenth sqrt_nine_sixteenth)

text \<open>
  Claim C7 as stated fails: with 48 pixels of \<open>#000000\<close> and 16 of \<open>#010000\<close> the exact
  mean red is 1/4 and the average distance from it is 3/8, while the code measures from
  the rounded mean, red 0, and returns 1/4.
\<close>

theorem C7_counterexample:
  "wf_texture two_tone_texture \<and> calculateColorVariance two_tone_texture = 1 / 4
     \<and> variance_spec two_tone_texture = 3 / 8
     \<and> calculateColorVariance two_tone_texture \<noteq> variance_spec two_tone_texture"
proof -
  have "calculateColorVariance two_tone_texture = variance_rounded two_tone_texture"
    by (rule variance_unbounded) (simp_all add: two_tone_texture_def)
  then show ?thesis
    by (simp add: two_tone_wf two_tone_rounded two_tone_spec)
qed

theorem C7_witness:
  "wf_texture two_tone_texture \<and> calculateColorVariance two_tone_texture = 1 / 4 \<and>
   colorCount flat_texture \<le> 1 \<and> calculateColorVariance flat_texture = 0"
  using C7_variance_from_rounded_mean [of two_tone_texture]
        C7_variance_from_rounded_mean [of flat_texture]
  by (simp add: two_tone_wf two_tone_rounded flat_texture_def)

section \<open>Properties of the matcher\<close>

lemma nearest_loop_started:
  "\<exists>b'. nearest_loop px cs (Some b, Finite (colorDistance px (perceivedColor b))) =
          (Some b', Finite (colorDistance px (perceivedColor b'))) \<and>
        ((b' = b \<and> (\<forall>c \<in> set cs. colorDistance px (perceivedColor b) \<le> colorDistance px (perceivedColor c))) \<or>
         (\<exists>pre post. cs = pre @ b' # post \<and>
            colorDistance px (perceivedColor b') < colorDistance px (perceivedColor b) \<and>
            (\<forall>c \<in> set pre. colorDistance px (perceivedColor b') < colorDistance px (perceivedColor c)) \<and>
            (\<forall>c \<in> set post. colorDistance px (perceivedColor b') \<le> colorDistance px (perceivedColor c))))"
proof (induction cs arbitrary: b)
  case Nil
  then show ?case by simp
next
  case (Cons c cs)
  let ?d = "\<lambda>x. colorDistance px (perceivedColor x)"
  show ?case
  proof (cases "?d c < ?d b")
    case True
    then have step: "nearest_loop px (c # cs) (Some b, Finite (?d b)) =
                     nearest_loop px cs (Some c, Finite (?d c))"
      by simp
    from Cons.IH [of c] obtain b' where
      res: "nearest_loop px cs (Some c, Finite (?d c)) = (Some b', Finite (?d b'))" and
      alt: "(b' = c \<and> (\<forall>x \<in> set cs. ?d c \<le> ?d x)) \<or>
            (\<exists>pre post. cs = pre @ b' # post \<and> ?d b' < ?d c \<and>
               (\<forall>x \<in> set pre. ?d b' < ?d x) \<and> (\<forall>x \<in> set post. ?d b' \<le> ?d x))"
      by blast
    from alt have "\<exists>pre post. c # cs = pre @ b' # post \<and> ?d b' < ?d b \<and>
               (\<forall>x \<in> set pre. ?d b' < ?d x) \<and> (\<forall>x \<in> set post. ?d b' \<le> ?d x)"
    proof
      assume "b' = c \<and> (\<forall>x \<in> set cs. ?d c \<le> ?d x)"
      then have "c # cs = [] @ b' # cs \<and> ?d b' < ?d b \<and>
               (\<forall>x \<in> set []. ?d b' < ?d x) \<and> (\<forall>x \<in> set cs. ?d b' \<le> ?d x)"
        using True by simp
      then show ?thesis by blast
    next
      assume "\<exists>pre post. cs = pre @ b' # post \<and> ?d b' < ?d c \<and>
               (\<forall>x \<in> set pre. ?d b' < ?d x) \<and> (\<forall>x \<in> set post. ?d b' \<le> ?d x)"
      then obtain pre post where p: "cs = pre @ b' # post" "?d b' < ?d c"
               "\<forall>x \<in> set pre. ?d b' < ?d x" "\<forall>x \<in> set post. ?d b' \<le> ?d x"
        by blast
      then have "c # cs = (c # pre) @ b' # post \<and> ?d b' < ?d b \<and>
               (\<forall>x \<in> set (c # pre). ?d b' < ?d x) \<and> (\<forall>x \<in> set post. ?d b' \<le> ?d x)"
        using True by simp
      then show ?thesis by blast
    qed
    with res step show ?thesis by metis
  next
    case False
    then have step: "nearest_loop px (c # cs) (Some b, Finite (?d b)) =
                     nearest_loop px cs (Some b, Finite (?d b))"
      by simp
    from Cons.IH [of b] obtain b' where
      res: "nearest_loop px cs (Some b, Finite (?d b)) = (Some b', Finite (?d b'))" and
      alt: "(b' = b \<and> (\<forall>x \<in> set cs. ?d b \<le> ?d x)) \<or>
            (\<exists>pre post. cs = pre @ b' # post \<and> ?d b' < ?d b \<and>
               (\<forall>x \<in> set pre. ?d b' < ?d x) \<and> (\<forall>x \<in> set post. ?d b' \<le> ?d x))"
      by blast
    from alt have "(b' = b \<and> (\<forall>x \<in> set (c # cs). ?d b \<le> ?d x)) \<or>
            (\<exists>pre post. c # cs = pre @ b' # post \<and> ?d b' < ?d b \<and>
               (\<forall>x \<in> set pre. ?d b' < ?d x) \<and> (\<forall>x \<in> set post. ?d b' \<le> ?d x))"
    proof
      assume "b' = b \<and> (\<forall>x \<in> set cs. ?d b \<le> ?d x)"
      then show ?thesis using False by simp
    next
      assume "\<exists>pre post. cs = pre @ b' # post \<and> ?d b' < ?d b \<and>
               (\<forall>x \<in> set pre. ?d b' < ?d x) \<and> (\<forall>x \<in> set post. ?d b' \<le> ?d x)"
      then obtain pre post where p: "cs = pre @ b' # post" "?d b' < ?d b"
               "\<forall>x \<in> set pre. ?d b' < ?d x" "\<forall>x \<in> set post. ?d b' \<le> ?d x"
        by blast
      then have "c # cs = (c # pre) @ b' # post \<and> ?d b' < ?d b \<and>
               (\<forall>x \<in> set (c # pre). ?d b' < ?d x) \<and> (\<forall>x \<in> set post. ?d b' \<le> ?d x)"
        using False by simp
      then show ?thesis by blast
    qed
    with res step show ?thesis by metis
  qed
qed

lemma nearest_loop_split:
  assumes "cs \<noteq> []"
  shows "\<exists>pre b' post. cs = pre @ b' # post \<and>
           nearest_loop px cs (None, Infinity) = (Some b', Finite (colorDistance px (perceivedColor b'))) \<and>
           (\<forall>c \<in> set pre. colorDistance px (perceivedColor b') < colorDistance px (perceivedColor c)) \<and>
           (\<forall>c \<in> set post. colorDistance px (perceivedColor b') \<le> colorDistance px (perceivedColor c))"
proof -
  let ?d = "\<lambda>x. colorDistance px (perceivedColor x)"
  from assms obtain c rest where cs: "cs = c # rest"
    by (cases cs) auto
  have step: "nearest_loop px cs (None, Infinity) = nearest_loop px rest (Some c, Finite (?d c))"
    by (simp add: cs)
  from nearest_loop_started [of px rest c] obtain b' where
    res: "nearest_loop px rest (Some c, Finite (?d c)) = (Some b', Finite (?d b'))" and
    alt: "(b' = c \<and> (\<forall>x \<in> set rest. ?d c \<le> ?d x)) \<or>
          (\<exists>pre post. rest = pre @ b' # post \<and> ?d b' < ?d c \<and>
             (\<forall>x \<in> set pre. ?d b' < ?d x) \<and> (\<forall>x \<in> set post. ?d b' \<le> ?d x))"
    by blast
  from alt have "\<exists>pre post. cs = pre @ b' # post \<and>
             (\<forall>x \<in> set pre. ?d b' < ?d x) \<and> (\<forall>x \<in> set post. ?d b' \<le> ?d x)"
  proof
    assume "b' = c \<and> (\<forall>x \<in> set rest. ?d c \<le> ?d x)"
    then have "cs = [] @ b' # rest \<and> (\<forall>x \<in> set []. ?d b' < ?d x) \<and> (\<forall>x \<in> set rest. ?d b' \<le> ?d x)"
      by (simp add: cs)
    then show ?thesis by blast
  next
    assume "\<exists>pre post. rest = pre @ b' # post \<and> ?d b' < ?d c \<and>
             (\<forall>x \<in> set pre. ?d b' < ?d x) \<and> (\<forall>x \<in> set post. ?d b' \<le> ?d x)"
    then obtain pre post where p: "rest = pre @ b' # post" "?d b' < ?d c"
             "\<forall>x \<in> set pre. ?d b' < ?d x" "\<forall>x \<in> set post. ?d b' \<le> ?d x"
      by blast
    then have "cs = (c # pre) @ b' # post \<and> (\<forall>x \<in> set (c # pre). ?d b' < ?d x) \<and>
               (\<forall>x \<in> set post. ?d b' \<le> ?d x)"
      by (simp add: cs)
    then show ?thesis by blast
  qed
  with res step show ?thesis by metis
qed

lemma split_nearest_first:
  assumes "cs = pre @ b' # post"
    and "\<forall>c \<in> set pre. colorDistance px (perceivedColor b') < colorDistance px (perceivedColor c)"
    and "\<forall>c \<in> set post. colorDistance px (perceivedColor b') \<le> colorDistance px (perceivedColor c)"
  shows "nearest_first px cs (length pre) \<and> cs ! length pre = b'"
proof -
  let ?d = "\<lambda>x. colorDistance px (perceivedColor x)"
  have at: "cs ! length pre = b'"
    by (simp add: assms(1))
  have all: "?d b' \<le> ?d x" if "x \<in> set cs" for x
    using that assms by (auto simp: less_imp_le)
  have every: "?d b' \<le> ?d (cs ! j)" if "j < length cs" for j
    using all [of "cs ! j"] that by simp
  have early: "?d b' < ?d (cs ! j)" if "j < length pre" for j
    using that assms(1,2) by (simp add: nth_append)
  have len: "length pre < length cs"
    by (simp add: assms(1))
  show ?thesis
    unfolding nearest_first_def at
    using every early len by blast
qed

lemma nearest_first_unique:
  assumes "nearest_first px cs i" and "nearest_first px cs j"
  shows "i = j"
proof (rule ccontr)
  assume "i \<noteq> j"
  then consider "i < j" | "j < i" by linarith
  then show False
  proof cases
    case 1
    with assms show False
      unfolding nearest_first_def by (metis not_less)
  next
    case 2
    with assms show False
      unfolding nearest_first_def by (metis not_less)
  qed
qed

lemma nearest_loop_result:
  assumes "cs \<noteq> []"
  shows "\<exists>i. nearest_first px cs i \<and>
           nearest_loop px cs (None, Infinity) =
             (Some (cs ! i), Finite (colorDistance px (perceivedColor (cs ! i))))"
proof -
  from nearest_loop_split [OF assms, of px] obtain pre b' post where
    s: "cs = pre @ b' # post"
       "nearest_loop px cs (None, Infinity) = (Some b', Finite (colorDistance px (perceivedColor b')))"
       "\<forall>c \<in> set pre. colorDistance px (perceivedColor b') < colorDistance px (perceivedColor c)"
       "\<forall>c \<in> set post. colorDistance px (perceivedColor b') \<le> colorDistance px (perceivedColor c)"
    by blast
  from split_nearest_first [OF s(1) s(3) s(4)] s(2) show ?thesis
    by metis
qed

lemma nearest_loop_at:
  assumes "nearest_first px cs i"
  shows "nearest_loop px cs (None, Infinity) =
           (Some (cs ! i), Finite (colorDistance px (perceivedColor (cs ! i))))"
proof -
  from assms have "cs \<noteq> []"
    by (auto simp: nearest_first_def)
  from nearest_loop_result [OF this, of px] obtain j where
    j: "nearest_first px cs j"
       "nearest_loop px cs (None, Infinity) =
             (Some (cs ! j), Finite (colorDistance px (perceivedColor (cs ! j))))"
    by blast
  from nearest_first_unique [OF assms j(1)] j(2) show ?thesis
    by simp
qed

text \<open>
  Claim C6. Without history the matcher returns, for a non-empty candidate list, the
  texture of the candidate at minimum Euclidean distance from the target, and among
  several at that distance the first in list order.
\<close>

theorem C6_static_nearest_first:
  assumes "candidates \<noteq> []"
  shows "\<exists>i. nearest_first pixelColor candidates i \<and>
           findBestMatch pixelColor candidates = Some (textureInfo (candidates ! i))"
proof -
  from nearest_loop_result [OF assms, of pixelColor] obtain i where
    "nearest_first pixelColor candidates i"
    "nearest_loop pixelColor candidates (None, Infinity) =
       (Some (candidates ! i), Finite (colorDistance pixelColor (perceivedColor (candidates ! i))))"
    by blast
  then show ?thesis
    by (auto simp: findBestMatch_def)
qed


text \<open>
  Claim C1. Let \<open>B\<close> be the global nearest candidate of a non-empty candidate list. If
  the previous choice is \<open>null\<close>, or is \<open>B\<close>'s texture id, or names no candidate, the
  sequence matcher returns \<open>B\<close>. If it is an id \<open>P\<close> other than \<open>B\<close>'s whose (first)
  candidate is \<open>PC\<close>, the matcher returns \<open>B\<close> exactly when the distance of \<open>PC\<close> minus
  the distance of \<open>B\<close> strictly exceeds the switch threshold, and returns \<open>PC\<close> otherwise.
\<close>

theorem C1_hysteresis:
  assumes "nearest_first pixelColor candidates i"
  shows "(previousTextureId = Null
            \<or> previousTextureId = TextureId (textureId (textureInfo (candidates ! i)))
            \<or> find (\<lambda>c. TextureId (textureId (textureInfo c)) = previousTextureId) candidates = None
          \<longrightarrow> findBestMatch_seq cfg pixelColor candidates previousTextureId
                = Some (textureInfo (candidates ! i)))
       \<and> (\<forall>p pc. previousTextureId = TextureId p
                  \<and> p \<noteq> textureId (textureInfo (candidates ! i))
                  \<and> find (\<lambda>c. TextureId (textureId (textureInfo c)) = previousTextureId) candidates = Some pc
            \<longrightarrow> ((findBestMatch_seq cfg pixelColor candidates previousTextureId
                      = Some (textureInfo (candidates ! i)))
                  \<longleftrightarrow> colorDistance pixelColor (perceivedColor pc)
                        - colorDistance pixelColor (perceivedColor (candidates ! i))
                      > textureSwitchThreshold cfg)
               \<and> (\<not> colorDistance pixelColor (perceivedColor pc)
                        - colorDistance pixelColor (perceivedColor (candidates ! i))
                      > textureSwitchThreshold cfg
                  \<longrightarrow> findBestMatch_seq cfg pixelColor candidates previousTextureId
                        = Some (textureInfo pc)))"
proof -
  note loop = nearest_loop_at [OF assms]
  have first: "previousTextureId = Null
            \<or> previousTextureId = TextureId (textureId (textureInfo (candidates ! i)))
            \<or> find (\<lambda>c. TextureId (textureId (textureInfo c)) = previousTextureId) candidates = None
          \<longrightarrow> findBestMatch_seq cfg pixelColor candidates previousTextureId
                = Some (textureInfo (candidates ! i))"
    by (auto simp: findBestMatch_seq_def loop)
  have second: "((findBestMatch_seq cfg pixelColor candidates previousTextureId
                      = Some (textureInfo (candidates ! i)))
                  \<longleftrightarrow> colorDistance pixelColor (perceivedColor pc)
                        - colorDistance pixelColor (perceivedColor (candidates ! i))
                      > textureSwitchThreshold cfg)
               \<and> (\<not> colorDistance pixelColor (perceivedColor pc)
                        - colorDistance pixelColor (perceivedColor (candidates ! i))
                      > textureSwitchThreshold cfg
                  \<longrightarrow> findBestMatch_seq cfg pixelColor candidates previousTextureId
                        = Some (textureInfo pc))"
    if prev: "previousTextureId = TextureId p"
      and ne: "p \<noteq> textureId (textureInfo (candidates ! i))"
      and found: "find (\<lambda>c. TextureId (textureId (textureInfo c)) = previousTextureId) candidates = Some pc"
    for p pc
  proof -
    from found have "TextureId (textureId (textureInfo pc)) = previousTextureId"
      by (auto simp: find_Some_iff)
    with prev have "textureId (textureInfo pc) = p"
      by simp
    with ne have differ: "textureInfo pc \<noteq> textureInfo (candidates ! i)"
      by auto
    show ?thesis
      using prev ne found differ
      by (simp add: findBestMatch_seq_def loop)
  qed
  from first second show ?thesis
    by blast
qed

lemma nearest_loop_member:
  "nearest_loop px cs (bm, md) = (Some b', md') \<Longrightarrow> b' \<in> set cs \<or> bm = Some b'"
proof (induction cs arbitrary: bm md)
  case Nil
  then show ?case by simp
next
  case (Cons c cs)
  show ?case
  proof (cases "below (colorDistance px (perceivedColor c)) md")
    case True
    with Cons.prems have "nearest_loop px cs (Some c, Finite (colorDistance px (perceivedColor c))) = (Some b', md')"
      by simp
    from Cons.IH [OF this] show ?thesis by auto
  next
    case False
    with Cons.prems have "nearest_loop px cs (bm, md) = (Some b', md')"
      by simp
    from Cons.IH [OF this] show ?thesis by auto
  qed
qed

lemma findBestMatch_member:
  "findBestMatch px cs = Some t \<Longrightarrow> t \<in> textureInfo ` set cs"
proof -
  assume r: "findBestMatch px cs = Some t"
  obtain bm md where l: "nearest_loop px cs (None, Infinity) = (bm, md)"
    by (cases "nearest_loop px cs (None, Infinity)")
  with r obtain b' where "bm = Some b'" "t = textureInfo b'"
    by (auto simp: findBestMatch_def split: option.splits)
  with l nearest_loop_member [of px cs None Infinity b' md] show ?thesis
    by auto
qed

lemma findBestMatch_seq_member:
  "findBestMatch_seq cfg px cs prev = Some t \<Longrightarrow> t \<in> textureInfo ` set cs"
proof -
  assume r: "findBestMatch_seq cfg px cs prev = Some t"
  obtain bm md where l: "nearest_loop px cs (None, Infinity) = (bm, md)"
    by (cases "nearest_loop px cs (None, Infinity)")
  with r obtain b' where b': "bm = Some b'"
    by (cases bm) (auto simp: findBestMatch_seq_def)
  with l nearest_loop_member [of px cs None Infinity b' md] have mem: "b' \<in> set cs"
    by auto
  have found: "pc \<in> set cs" if "find P cs = Some pc" for P pc
    using that by (auto simp: find_Some_iff)
  from r l b' have "t = textureInfo b' \<or>
      (\<exists>pc. find (\<lambda>c. TextureId (textureId (textureInfo c)) = prev) cs = Some pc \<and> t = textureInfo pc)"
    by (auto simp: findBestMatch_seq_def Let_def split: if_splits option.splits)
  with mem found show ?thesis
    by blast
qed

lemma traverse_Inr_iff:
  "traverse f xs = Inr ys \<longleftrightarrow> list_all2 (\<lambda>x y. f x = Inr y) xs ys"
proof (induction xs arbitrary: ys)
  case Nil
  then show ?case by auto
next
  case (Cons x xs)
  show ?case
    by (cases ys) (auto simp: Cons.IH [symmetric] split: sum.splits)
qed

lemma traverse_total:
  "(\<And>x. x \<in> set xs \<Longrightarrow> \<exists>y. f x = Inr y) \<Longrightarrow> \<exists>ys. traverse f xs = Inr ys"
proof (induction xs)
  case Nil
  then show ?case by simp
next
  case (Cons x xs)
  from Cons.prems obtain y where y: "f x = Inr y"
    by auto
  from Cons obtain ys where "traverse f xs = Inr ys"
    by auto
  with y show ?case by simp
qed

lemma frame_cell_member:
  "frame_cell cfg img cs prev y x = Inr (Some tid) \<Longrightarrow> tid \<in> (\<lambda>c. textureId (textureInfo c)) ` set cs"
proof -
  assume r: "frame_cell cfg img cs prev y x = Inr (Some tid)"
  then obtain pc t where "findBestMatch_seq cfg (getPixelColor img x y) cs pc = Some t" "tid = textureId t"
    by (auto simp: frame_cell_def split: sum.splits option.splits)
  with findBestMatch_seq_member [of cfg "getPixelColor img x y" cs pc t] show ?thesis
    by auto
qed

lemma processImageFrame_total:
  assumes "case previousFrameChoices of None \<Rightarrow> True | Some g \<Rightarrow> img_height img \<le> length g"
  shows "\<exists>grid. processImageFrame cfg img cs previousFrameChoices = Inr grid"
proof -
  have cell: "\<exists>c. frame_cell cfg img cs previousFrameChoices y x = Inr c" if "y < img_height img" for y x
  proof -
    from that assms have "\<exists>pc. previous_at previousFrameChoices y x = Inr pc"
      by (auto simp: previous_at_def split: option.splits)
    then obtain pc where "previous_at previousFrameChoices y x = Inr pc"
      by blast
    then show ?thesis
      by (auto simp: frame_cell_def split: option.splits)
  qed
  have row: "\<exists>r. traverse (frame_cell cfg img cs previousFrameChoices y) [0..<img_width img] = Inr r"
    if "y < img_height img" for y
    by (rule traverse_total) (use cell [OF that] in auto)
  show ?thesis
    unfolding processImageFrame_def
    by (rule traverse_total) (use row in auto)
qed

text \<open>
  Claim C9. Every non-null result of the matcher, static or sequence, is the texture of a
  member of the candidate list it was given; every non-null cell of the grid a frame
  produces is the texture id of such a member, whatever the previous grid holds; and a
  frame does produce a grid when there is no previous grid or the previous one has a row
  for each of its rows.
\<close>

theorem C9_choices_are_candidates:
  "(findBestMatch pixelColor candidates = Some t \<longrightarrow> t \<in> textureInfo ` set candidates) \<and>
   (findBestMatch_seq cfg pixelColor candidates previousTextureId = Some t
      \<longrightarrow> t \<in> textureInfo ` set candidates) \<and>
   (processImageFrame cfg blueprint candidates previousFrameChoices = Inr currentFrameChoices
      \<longrightarrow> (\<forall>row \<in> set currentFrameChoices. \<forall>tid. Some tid \<in> set row
             \<longrightarrow> tid \<in> (\<lambda>c. textureId (textureInfo c)) ` set candidates)) \<and>
   ((case previousFrameChoices of None \<Rightarrow> True | Some g \<Rightarrow> img_height blueprint \<le> length g)
      \<longrightarrow> (\<exists>grid. processImageFrame cfg blueprint candidates previousFrameChoices = Inr grid))"
proof (intro conjI impI ballI allI)
  show "t \<in> textureInfo ` set candidates" if "findBestMatch pixelColor candidates = Some t"
    using that by (rule findBestMatch_member)
  show "t \<in> textureInfo ` set candidates"
    if "findBestMatch_seq cfg pixelColor candidates previousTextureId = Some t"
    using that by (rule findBestMatch_seq_member)
  show "\<exists>grid. processImageFrame cfg blueprint candidates previousFrameChoices = Inr grid"
    if "case previousFrameChoices of None \<Rightarrow> True | Some g \<Rightarrow> img_height blueprint \<le> length g"
    using that by (rule processImageFrame_total)
next
  fix row tid
  assume run: "processImageFrame cfg blueprint candidates previousFrameChoices = Inr currentFrameChoices"
    and row: "row \<in> set currentFrameChoices" and cell: "Some tid \<in> set row"
  from run have rows: "list_all2 (\<lambda>y r. traverse (frame_cell cfg blueprint candidates previousFrameChoices y)
                                   [0..<img_width blueprint] = Inr r)
                        [0..<img_height blueprint] currentFrameChoices"
    by (simp add: processImageFrame_def traverse_Inr_iff)
  with row obtain y where
    "traverse (frame_cell cfg blueprint candidates previousFrameChoices y) [0..<img_width blueprint] = Inr row"
    by (auto simp: list_all2_conv_all_nth in_set_conv_nth)
  then have "list_all2 (\<lambda>x c. frame_cell cfg blueprint candidates previousFrameChoices y x = Inr c)
               [0..<img_width blueprint] row"
    by (simp add: traverse_Inr_iff)
  with cell obtain x where "frame_cell cfg blueprint candidates previousFrameChoices y x = Inr (Some tid)"
    by (auto simp: list_all2_conv_all_nth in_set_conv_nth)
  then show "tid \<in> (\<lambda>c. textureId (textureInfo c)) ` set candidates"
    by (rule frame_cell_member)
qed


lemma sample_distances:
  "colorDistance black (perceivedColor cand_far) = 20"
  "colorDistance black (perceivedColor cand_near) = 3"
  "colorDistance black (perceivedColor cand_mid) = 10"
proof -
  have "sqrt 400 = 20" "sqrt 9 = 3" "sqrt 100 = 10"
    by (rule real_sqrt_unique; simp)+
  then show "colorDistance black (perceivedColor cand_far) = 20"
    "colorDistance black (perceivedColor cand_near) = 3"
    "colorDistance black (perceivedColor cand_mid) = 10"
    by (simp_all add: colorDistance_def black_def cand_far_def cand_near_def cand_mid_def)
qed

lemma sample_nearest: "nearest_first black sample_candidates 1"
  by (simp add: nearest_first_def sample_candidates_def sample_distances less_Suc_eq
        numeral_3_eq_3 nth_Cons')

lemma sample_ids:
  "textureId (textureInfo cand_far) = 0"
  "textureId (textureInfo cand_near) = 1"
  "textureId (textureInfo cand_mid) = 2"
  by (simp_all add: cand_far_def cand_near_def cand_mid_def sample_texture_def)

theorem C6_witness:
  "sample_candidates \<noteq> [] \<and>
   findBestMatch black sample_candidates = Some (textureInfo cand_near)"
proof -
  have ne: "sample_candidates \<noteq> []"
    by (simp add: sample_candidates_def)
  from C6_static_nearest_first [OF ne, of black] obtain i where
    i: "nearest_first black sample_candidates i"
       "findBestMatch black sample_candidates = Some (textureInfo (sample_candidates ! i))"
    by blast
  from nearest_first_unique [OF i(1) sample_nearest] have "i = 1" .
  with i(2) ne show ?thesis
    by (simp add: sample_candidates_def)
qed

theorem C1_witness:
  "nearest_first black sample_candidates 1 \<and>
   findBestMatch_seq sample_config black sample_candidates Null = Some (textureInfo cand_near) \<and>
   findBestMatch_seq sample_config black sample_candidates (TextureId 7) = Some (textureInfo cand_near) \<and>
   findBestMatch_seq sample_config black sample_candidates (TextureId 0) = Some (textureInfo cand_near) \<and>
   findBestMatch_seq sample_config black sample_candidates (TextureId 2) = Some (textureInfo cand_mid)"
proof -
  let ?best = "sample_candidates ! 1"
  let ?run = "findBestMatch_seq sample_config black sample_candidates"
  have f7: "find (\<lambda>c. TextureId (textureId (textureInfo c)) = TextureId 7) sample_candidates = None"
    by (simp add: sample_candidates_def sample_ids)
  have f0: "find (\<lambda>c. TextureId (textureId (textureInfo c)) = TextureId 0) sample_candidates = Some cand_far"
    by (simp add: sample_candidates_def sample_ids)
  have f2: "find (\<lambda>c. TextureId (textureId (textureInfo c)) = TextureId 2) sample_candidates = Some cand_mid"
    by (simp add: sample_candidates_def sample_ids)
  have at: "?best = cand_near"
    by (simp add: sample_candidates_def)
  have ne0: "0 \<noteq> textureId (textureInfo ?best)" and ne2: "2 \<noteq> textureId (textureInfo ?best)"
    by (simp_all add: sample_candidates_def sample_ids)
  have thr: "textureSwitchThreshold sample_config = 15"
    by (simp add: sample_config_def)
  have r_null: "?run Null = Some (textureInfo ?best)"
    using C1_hysteresis [OF sample_nearest, of Null sample_config] by blast
  have r7: "?run (TextureId 7) = Some (textureInfo ?best)"
    using C1_hysteresis [OF sample_nearest, of "TextureId 7" sample_config] f7 by blast
  have "(?run (TextureId 0) = Some (textureInfo ?best))
          \<longleftrightarrow> colorDistance black (perceivedColor cand_far) - colorDistance black (perceivedColor ?best)
              > textureSwitchThreshold sample_config"
    using C1_hysteresis [OF sample_nearest, of "TextureId 0" sample_config] f0 ne0 by blast
  then have r0: "?run (TextureId 0) = Some (textureInfo ?best)"
    unfolding at by (simp add: thr sample_distances)
  have "\<not> colorDistance black (perceivedColor cand_mid) - colorDistance black (perceivedColor ?best)
              > textureSwitchThreshold sample_config
        \<longrightarrow> ?run (TextureId 2) = Some (textureInfo cand_mid)"
    using C1_hysteresis [OF sample_nearest, of "TextureId 2" sample_config] f2 ne2 by blast
  then have r2: "?run (TextureId 2) = Some (textureInfo cand_mid)"
    unfolding at by (simp add: thr sample_distances)
  from sample_nearest r_null r7 r0 r2 show ?thesis
    unfolding at by blast
qed

theorem C9_witness:
  "processImageFrame sample_config black_frame sample_candidates (Some [[Some 0, Some 7]])
     = Inr [[Some 1, Some 1]] \<and>
   1 \<in> (\<lambda>c. textureId (textureInfo c)) ` set sample_candidates \<and>
   7 \<notin> (\<lambda>c. textureId (textureInfo c)) ` set sample_candidates"
proof -
  have loop: "nearest_loop black sample_candidates (None, Infinity) = (Some cand_near, Finite 3)"
    using nearest_loop_at [OF sample_nearest] by (simp add: sample_candidates_def sample_distances)
  have f7: "find (\<lambda>c. textureId (textureInfo c) = 7) sample_candidates = None"
    by (simp add: sample_candidates_def sample_ids)
  have f0: "find (\<lambda>c. textureId (textureInfo c) = 0) sample_candidates = Some cand_far"
    by (simp add: sample_candidates_def sample_ids)
  have c0: "frame_cell sample_config black_frame sample_candidates (Some [[Some 0, Some 7]]) 0 0 = Inr (Some 1)"
    by (simp add: frame_cell_def previous_at_def findBestMatch_seq_def black_frame_def loop f0
          sample_ids sample_distances sample_config_def)
  have c1: "frame_cell sample_config black_frame sample_candidates (Some [[Some 0, Some 7]]) 0 (Suc 0) = Inr (Some 1)"
    by (simp add: frame_cell_def previous_at_def findBestMatch_seq_def black_frame_def loop f7
          sample_ids sample_distances sample_config_def)
  have w: "[0..<img_width black_frame] = [0, 1]" and h: "[0..<img_height black_frame] = [0]"
    by (simp_all add: black_frame_def upt_rec)
  have run: "processImageFrame sample_config black_frame sample_candidates (Some [[Some 0, Some 7]])
     = Inr [[Some 1, Some 1]]"
    by (simp add: processImageFrame_def w h c0 c1)
  from C9_choices_are_candidates [of black sample_candidates "textureInfo cand_near" sample_config Null
         black_frame "Some [[Some 0, Some 7]]" "[[Some 1, Some 1]]"] run
  have "1 \<in> (\<lambda>c. textureId (textureInfo c)) ` set sample_candidates"
    by simp
  moreover have "7 \<notin> (\<lambda>c. textureId (textureInfo c)) ` set sample_candidates"
    by (simp add: sample_candidates_def sample_ids)
  ultimately show ?thesis
    using run by simp
qed

section \<open>Properties of candidate preparation\<close>

lemma prepare_loop_map_filter:
  "prepare_loop cfg valid ts acc = acc @ List.map_filter (candidate_of cfg valid) ts"
  by (induction ts arbitrary: acc) (auto split: option.splits)

lemma map_filter_empty_iff:
  "List.map_filter f xs = [] \<longleftrightarrow> (\<forall>x \<in> set xs. f x = None)"
  by (induction xs) (auto split: option.splits)

lemma map_filter_member:
  "y \<in> set (List.map_filter f xs) \<longleftrightarrow> (\<exists>x \<in> set xs. f x = Some y)"
  by (induction xs) (auto split: option.splits)

lemma candidate_of_textureInfo:
  "candidate_of cfg valid t = Some c \<Longrightarrow> textureInfo c = t"
  by (auto simp: candidate_of_def split: if_splits option.splits)

text \<open>
  Claim C4. Candidate preparation raises an error exactly when the index has no entry for
  the requested face direction or the loop rejects every texture of the palette;
  otherwise it returns a non-empty list, each member of which is a palette texture that
  the loop accepted, paired with its own perceived colour.
\<close>

theorem C4_preparation_fails_iff:
  "((\<exists>e. loadAndPrepareCandidates cfg td = Inl e) \<longleftrightarrow>
      (face_index td (faceDirection cfg) = None \<or>
       (\<exists>faceIndex. face_index td (faceDirection cfg) = Some faceIndex \<and>
          (\<forall>t \<in> set (texture_palette td). candidate_of cfg (concat (map snd faceIndex)) t = None)))) \<and>
   (\<forall>candidates. loadAndPrepareCandidates cfg td = Inr candidates \<longrightarrow>
      candidates \<noteq> [] \<and>
      (\<exists>faceIndex. face_index td (faceDirection cfg) = Some faceIndex \<and>
         (\<forall>c \<in> set candidates. textureInfo c \<in> set (texture_palette td) \<and>
            candidate_of cfg (concat (map snd faceIndex)) (textureInfo c) = Some c)))"
proof (cases "face_index td (faceDirection cfg)")
  case None
  then show ?thesis
    by (simp add: loadAndPrepareCandidates_def)
next
  case (Some faceIndex)
  let ?valid = "concat (map snd faceIndex)"
  let ?cs = "List.map_filter (candidate_of cfg ?valid) (texture_palette td)"
  have run: "loadAndPrepareCandidates cfg td = (if ?cs = [] then Inl NoCandidates else Inr ?cs)"
    by (simp add: loadAndPrepareCandidates_def Some prepare_loop_map_filter Let_def)
  have member: "textureInfo c \<in> set (texture_palette td) \<and>
                candidate_of cfg ?valid (textureInfo c) = Some c" if "c \<in> set ?cs" for c
  proof -
    from that obtain t where t: "t \<in> set (texture_palette td)" "candidate_of cfg ?valid t = Some c"
      by (auto simp: map_filter_member)
    with candidate_of_textureInfo [OF t(2)] show ?thesis
      by simp
  qed
  show ?thesis
  proof (cases "?cs = []")
    case True
    then show ?thesis
      by (simp add: run Some map_filter_empty_iff)
  next
    case False
    then have "\<not> (\<forall>t \<in> set (texture_palette td). candidate_of cfg ?valid t = None)"
      by (simp add: map_filter_empty_iff)
    with False member show ?thesis
      by (simp add: run Some)
  qed
qed

lemma candidate_of_tighter:
  assumes "tighter v' (maxVariance cfg)" and "tighter m' (maxColorCount cfg)"
    and "candidate_of (cfg\<lparr>maxVariance := v', maxColorCount := m'\<rparr>) valid t = Some c"
  shows "candidate_of cfg valid t = Some c"
  using assms
  by (auto simp: candidate_of_def tighter_def split: if_splits option.splits)

lemma map_filter_subseq:
  "(\<And>x y. f x = Some y \<Longrightarrow> g x = Some y) \<Longrightarrow> subseq (List.map_filter f xs) (List.map_filter g xs)"
proof (induction xs)
  case Nil
  then show ?case by simp
next
  case (Cons x xs)
  then have ih: "subseq (List.map_filter f xs) (List.map_filter g xs)"
    by blast
  show ?case
  proof (cases "f x")
    case None
    with ih show ?thesis
      by (cases "g x") auto
  next
    case (Some y)
    with Cons.prems have "g x = Some y"
      by blast
    with Some ih show ?thesis
      by simp
  qed
qed

text \<open>
  Claim C5. With every other option unchanged, replacing \<open>maxVariance\<close> and
  \<open>maxColorCount\<close> by tighter values leaves a candidate list that is a subsequence of
  the original one, hence no longer and with no new member; and when the tighter
  configuration still yields candidates, so does the original.
\<close>

theorem C5_filter_monotonic:
  assumes "tighter v' (maxVariance cfg)" and "tighter m' (maxColorCount cfg)"
  shows "subseq (prepare_loop (cfg\<lparr>maxVariance := v', maxColorCount := m'\<rparr>) valid palette [])
                (prepare_loop cfg valid palette [])
       \<and> length (prepare_loop (cfg\<lparr>maxVariance := v', maxColorCount := m'\<rparr>) valid palette [])
           \<le> length (prepare_loop cfg valid palette [])
       \<and> set (prepare_loop (cfg\<lparr>maxVariance := v', maxColorCount := m'\<rparr>) valid palette [])
           \<subseteq> set (prepare_loop cfg valid palette [])
       \<and> (\<forall>cs'. loadAndPrepareCandidates (cfg\<lparr>maxVariance := v', maxColorCount := m'\<rparr>) td = Inr cs'
            \<longrightarrow> (\<exists>cs. loadAndPrepareCandidates cfg td = Inr cs \<and> subseq cs' cs \<and> length cs' \<le> length cs))"
proof -
  let ?cfg' = "cfg\<lparr>maxVariance := v', maxColorCount := m'\<rparr>"
  have sub: "subseq (prepare_loop ?cfg' ids ts []) (prepare_loop cfg ids ts [])" for ids ts
    unfolding prepare_loop_map_filter append_Nil
    by (rule map_filter_subseq) (rule candidate_of_tighter [OF assms])
  have len: "length (prepare_loop ?cfg' ids ts []) \<le> length (prepare_loop cfg ids ts [])" for ids ts
    using sub [of ids ts] by (rule list_emb_length)
  have sets: "set (prepare_loop ?cfg' ids ts []) \<subseteq> set (prepare_loop cfg ids ts [])" for ids ts
    using sub [of ids ts] by (auto dest: list_emb_set)
  have whole: "\<exists>cs. loadAndPrepareCandidates cfg td = Inr cs \<and> subseq cs' cs \<and> length cs' \<le> length cs"
    if run: "loadAndPrepareCandidates ?cfg' td = Inr cs'" for cs'
  proof (cases "face_index td (faceDirection cfg)")
    case None
    with run show ?thesis
      by (simp add: loadAndPrepareCandidates_def)
  next
    case (Some faceIndex)
    let ?valid = "concat (map snd faceIndex)"
    from run Some have cs': "cs' = prepare_loop ?cfg' ?valid (texture_palette td) []" "cs' \<noteq> []"
      by (auto simp: loadAndPrepareCandidates_def Let_def split: if_splits)
    with len [of ?valid "texture_palette td"] have "prepare_loop cfg ?valid (texture_palette td) [] \<noteq> []"
      by auto
    then have "loadAndPrepareCandidates cfg td = Inr (prepare_loop cfg ?valid (texture_palette td) [])"
      by (simp add: loadAndPrepareCandidates_def Some Let_def)
    with sub [of ?valid "texture_palette td"] len [of ?valid "texture_palette td"] cs'(1)
    show ?thesis
      by simp
  qed
  from sub len sets whole show ?thesis
    by blast
qed


lemma flat_perceived:
  "calculatePerceivedColor flat_texture \<infinity> = Some \<lparr>rgb_r = 255, rgb_g = 128, rgb_b = 0\<rparr>"
proof -
  have "opaque_entries flat_texture = [(\<lparr>rgb_r = 255, rgb_g = 128, rgb_b = 0\<rparr>, 64)]"
    by (simp add: opaque_entries_def flat_texture_def hex_eval)
  then show ?thesis
    by (simp add: perceived_unbounded flat_texture_def weight_sum_def)
qed

lemma two_tone_perceived:
  "calculatePerceivedColor two_tone_texture \<infinity> = Some \<lparr>rgb_r = 0, rgb_g = 0, rgb_b = 0\<rparr>"
proof -
  have "length (colorPixelCounts two_tone_texture) = length (colorHexes two_tone_texture)"
    by (simp add: two_tone_texture_def)
  then show ?thesis
    by (simp add: perceived_unbounded two_tone_entries weight_sum_def round_def)
qed

lemma two_tone_variance: "calculateColorVariance two_tone_texture = 1 / 4"
proof -
  have "calculateColorVariance two_tone_texture = variance_rounded two_tone_texture"
    by (rule variance_unbounded) (simp_all add: two_tone_texture_def)
  then show ?thesis
    by (simp add: two_tone_rounded)
qed

lemma flat_variance: "calculateColorVariance flat_texture = 0"
  by (simp add: calculateColorVariance_def flat_texture_def)

lemma sample_candidate_flat:
  "mv \<noteq> None \<Longrightarrow> 0 \<le> the mv \<Longrightarrow>
   candidate_of (sample_config\<lparr>maxVariance := mv, maxColorCount := None\<rparr>) [0, 1, 1] flat_texture =
     Some \<lparr>textureInfo = flat_texture, perceivedColor = \<lparr>rgb_r = 255, rgb_g = 128, rgb_b = 0\<rparr>\<rparr>"
  by (cases mv) (simp_all add: candidate_of_def sample_config_def flat_variance flat_perceived,
      simp_all add: flat_texture_def)

lemma sample_candidate_two_tone:
  "candidate_of (sample_config\<lparr>maxVariance := Some v, maxColorCount := None\<rparr>) [0, 1, 1] two_tone_texture =
     (if 1 / 4 > v then None
      else Some \<lparr>textureInfo = two_tone_texture, perceivedColor = \<lparr>rgb_r = 0, rgb_g = 0, rgb_b = 0\<rparr>\<rparr>)"
  by (simp add: candidate_of_def sample_config_def two_tone_variance two_tone_perceived)
     (simp add: two_tone_texture_def)

lemma sample_config_limits:
  "sample_config\<lparr>maxVariance := Some 20, maxColorCount := None\<rparr> = sample_config"
  by (simp add: sample_config_def)

lemma sample_face:
  "face_index sample_index (faceDirection sample_config) =
     Some [(''#ff8000'', [0]), (''#000000'', [1]), (''#010000'', [1])]"
  "face_index sample_index (faceDirection (sample_config\<lparr>faceDirection := ''top''\<rparr>)) = None"
  "texture_palette sample_index = [flat_texture, two_tone_texture]"
  by (simp_all add: sample_index_def sample_config_def)

theorem C4_witness:
  "(\<exists>candidates. loadAndPrepareCandidates sample_config sample_index = Inr candidates \<and> candidates \<noteq> []) \<and>
   (\<exists>e. loadAndPrepareCandidates (sample_config\<lparr>faceDirection := ''top''\<rparr>) sample_index = Inl e)"
proof -
  have flat: "candidate_of sample_config [0, 1, 1] flat_texture \<noteq> None"
    using sample_candidate_flat [of "Some 20"] by (simp add: sample_config_limits)
  have "\<not> (\<exists>e. loadAndPrepareCandidates sample_config sample_index = Inl e)"
    using C4_preparation_fails_iff [of sample_config sample_index] flat
    by (simp add: sample_face)
  then obtain cs where cs: "loadAndPrepareCandidates sample_config sample_index = Inr cs"
    by (cases "loadAndPrepareCandidates sample_config sample_index") auto
  with C4_preparation_fails_iff [of sample_config sample_index] have "cs \<noteq> []"
    by blast
  moreover have "\<exists>e. loadAndPrepareCandidates (sample_config\<lparr>faceDirection := ''top''\<rparr>) sample_index = Inl e"
    using C4_preparation_fails_iff [of "sample_config\<lparr>faceDirection := ''top''\<rparr>" sample_index]
    by (simp only: sample_face) simp
  ultimately show ?thesis
    using cs by blast
qed

theorem C5_witness:
  "tighter (Some (1 / 10)) (maxVariance sample_config) \<and> tighter None (maxColorCount sample_config) \<and>
   length (prepare_loop (sample_config\<lparr>maxVariance := Some (1 / 10), maxColorCount := None\<rparr>)
             [0, 1, 1] [flat_texture, two_tone_texture] []) = 1 \<and>
   length (prepare_loop sample_config [0, 1, 1] [flat_texture, two_tone_texture] []) = 2 \<and>
   set (prepare_loop (sample_config\<lparr>maxVariance := Some (1 / 10), maxColorCount := None\<rparr>)
             [0, 1, 1] [flat_texture, two_tone_texture] [])
     \<subseteq> set (prepare_loop sample_config [0, 1, 1] [flat_texture, two_tone_texture] [])"
proof -
  have t1: "tighter (Some (1 / 10)) (maxVariance sample_config)"
    and t2: "tighter None (maxColorCount sample_config)"
    by (simp_all add: tighter_def sample_config_def)
  have tight: "length (prepare_loop (sample_config\<lparr>maxVariance := Some (1 / 10), maxColorCount := None\<rparr>)
             [0, 1, 1] [flat_texture, two_tone_texture] []) = 1"
    using sample_candidate_flat [of "Some (1 / 10)"] sample_candidate_two_tone [of "1 / 10"]
    by simp
  have loose: "length (prepare_loop sample_config [0, 1, 1] [flat_texture, two_tone_texture] []) = 2"
    using sample_candidate_flat [of "Some 20"] sample_candidate_two_tone [of 20]
    by (simp add: sample_config_limits)
  from C5_filter_monotonic [OF t1 t2, of "[0, 1, 1]" "[flat_texture, two_tone_texture]" sample_index]
  have "set (prepare_loop (sample_config\<lparr>maxVariance := Some (1 / 10), maxColorCount := None\<rparr>)
             [0, 1, 1] [flat_texture, two_tone_texture] [])
     \<subseteq> set (prepare_loop sample_config [0, 1, 1] [flat_texture, two_tone_texture] [])"
    by blast
  with t1 t2 tight loose show ?thesis
    by blast
qed

section \<open>Properties of the blueprint encoder\<close>

lemma traverse_map:
  "(\<And>x. x \<in> set xs \<Longrightarrow> f x = Inr (g x)) \<Longrightarrow> traverse f xs = Inr (map g xs)"
  by (induction xs) auto

lemma traverse_Inr_map:
  assumes "traverse f xs = Inr ys" and "\<And>x y. x \<in> set xs \<Longrightarrow> f x = Inr y \<Longrightarrow> y = g x"
  shows "ys = map g xs"
  using assms
proof (induction xs arbitrary: ys)
  case Nil
  then show ?case by simp
next
  case (Cons x xs)
  from Cons.prems(1) obtain y ys' where
    p: "f x = Inr y" "traverse f xs = Inr ys'" "ys = y # ys'"
    by (auto split: sum.splits)
  from Cons.IH [OF p(2)] Cons.prems(2) have "ys' = map g xs"
    by auto
  moreover from Cons.prems(2) [of x y] p(1) have "y = g x"
    by simp
  ultimately show ?case
    using p(3) by simp
qed

lemma map_product:
  "map (\<lambda>(y, x). F y x) (List.product ys xs) = concat (map (\<lambda>y. map (F y) xs) ys)"
  by (induction ys) auto

lemma rect_rows:
  assumes "rectangular w grid"
  shows "map (\<lambda>y. map (\<lambda>x. G (grid ! y ! x)) [0..<w]) [0..<length grid] = map (map G) grid"
proof (rule nth_equalityI)
  show "length (map (\<lambda>y. map (\<lambda>x. G (grid ! y ! x)) [0..<w]) [0..<length grid]) = length (map (map G) grid)"
    by simp
next
  fix y
  assume "y < length (map (\<lambda>y. map (\<lambda>x. G (grid ! y ! x)) [0..<w]) [0..<length grid])"
  then have y: "y < length grid"
    by simp
  with assms have len: "length (grid ! y) = w"
    by (simp add: rectangular_def list_all_length)
  have "map (\<lambda>x. G (grid ! y ! x)) [0..<w] = map G (grid ! y)"
    by (rule nth_equalityI) (simp_all add: len)
  with y show "map (\<lambda>y. map (\<lambda>x. G (grid ! y ! x)) [0..<w]) [0..<length grid] ! y = map (map G) grid ! y"
    by simp
qed

lemma rect_cells:
  assumes "rectangular w grid"
  shows "map (\<lambda>(y, x). G (grid ! y ! x)) (List.product [0..<length grid] [0..<w]) = map G (concat grid)"
  by (simp add: map_product rect_rows [OF assms] map_concat)

lemma nth_concat_rect:
  "rectangular w grid \<Longrightarrow> y < length grid \<Longrightarrow> x < w \<Longrightarrow> concat grid ! (y * w + x) = grid ! y ! x"
proof (induction grid arbitrary: y)
  case Nil
  then show ?case by simp
next
  case (Cons row grid)
  then have len: "length row = w" and rest: "rectangular w grid"
    by (simp_all add: rectangular_def)
  show ?case
  proof (cases y)
    case 0
    with Cons.prems len show ?thesis
      by (simp add: nth_append)
  next
    case (Suc y')
    with Cons.prems have "y' < length grid"
      by simp
    from Cons.IH [OF rest this Cons.prems(3)] Suc len show ?thesis
      by (simp add: nth_append)
  qed
qed

lemma length_concat_rect: "rectangular w grid \<Longrightarrow> length (concat grid) = w * length grid"
  by (induction grid) (simp_all add: rectangular_def)

lemma rect_width: "rectangular w grid \<Longrightarrow> grid \<noteq> [] \<Longrightarrow> length (grid ! 0) = w"
  by (cases grid) (simp_all add: rectangular_def)

lemma encode_cell_in_range:
  assumes "rectangular w grid" and "y < length grid" and "x < w"
  shows "encode_cell palette grid (y, x) =
           fromCodePoint (UNICODE_PRIVATE_USE_START + cell_blockId palette (grid ! y ! x))"
proof -
  from assms have "length (grid ! y) = w"
    by (simp add: rectangular_def list_all_length)
  with assms(3) show ?thesis
    by (simp add: encode_cell_def)
qed

lemma fromCodePoint_Inr: "fromCodePoint n = Inr m \<Longrightarrow> m = n"
  by (simp add: fromCodePoint_def split: if_splits)

lemma fromCodePoint_ok: "b \<le> MAX_BLOCK_ID \<Longrightarrow> fromCodePoint (UNICODE_PRIVATE_USE_START + b) = Inr (UNICODE_PRIVATE_USE_START + b)"
  by (simp add: fromCodePoint_def MAX_BLOCK_ID_def UNICODE_PRIVATE_USE_START_def)

text \<open>Whenever the encoder returns, its symbols are the cells' block ids above the base.\<close>

lemma generate_symbols:
  assumes rect: "rectangular w grid" and run: "generateBlueprintFiles grid palette = Inr out"
  shows "symbols_of out = map (\<lambda>cell. UNICODE_PRIVATE_USE_START + cell_blockId palette cell) (concat grid)"
proof (cases "grid = []")
  case True
  with run show ?thesis
    by (auto simp: generateBlueprintFiles_def symbols_of_def)
next
  case False
  let ?P = "List.product [0..<length grid] [0..<w]"
  from run False rect_width [OF rect False] obtain syms where
    syms: "traverse (encode_cell palette grid) ?P = Inr syms" and out: "symbols_of out = syms"
    by (auto simp: generateBlueprintFiles_def symbols_of_def Let_def split: sum.splits)
  have "syms = map (\<lambda>(y, x). UNICODE_PRIVATE_USE_START + cell_blockId palette (grid ! y ! x)) ?P"
  proof (rule traverse_Inr_map [OF syms])
    fix p s
    assume p: "p \<in> set ?P" and s: "encode_cell palette grid p = Inr s"
    obtain y x where yx: "p = (y, x)"
      by (cases p)
    with p have "y < length grid" "x < w"
      by simp_all
    from encode_cell_in_range [OF rect this] s yx
    have "fromCodePoint (UNICODE_PRIVATE_USE_START + cell_blockId palette (grid ! y ! x)) = Inr s"
      by simp
    from fromCodePoint_Inr [OF this] yx
    show "s = (case p of (y, x) \<Rightarrow> UNICODE_PRIVATE_USE_START + cell_blockId palette (grid ! y ! x))"
      by simp
  qed
  with out show ?thesis
    using rect_cells [OF rect, of "\<lambda>cell. UNICODE_PRIVATE_USE_START + cell_blockId palette cell"]
    by simp
qed

text \<open>The encoder returns when every cell's block id leaves the code point in range.\<close>

lemma generate_total:
  assumes rect: "rectangular w grid"
    and small: "\<And>cell. cell \<in> set (concat grid) \<Longrightarrow> cell_blockId palette cell \<le> MAX_BLOCK_ID"
  shows "\<exists>out. generateBlueprintFiles grid palette = Inr out"
proof (cases "grid = []")
  case True
  then show ?thesis
    by (simp add: generateBlueprintFiles_def)
next
  case False
  let ?P = "List.product [0..<length grid] [0..<w]"
  have "\<exists>s. encode_cell palette grid p = Inr s" if "p \<in> set ?P" for p
  proof -
    obtain y x where yx: "p = (y, x)"
      by (cases p)
    with that have b: "y < length grid" "x < w"
      by simp_all
    with rect have "length (grid ! y) = w"
      by (simp add: rectangular_def list_all_length)
    with b have "grid ! y ! x \<in> set (concat grid)"
      by (metis nth_mem set_concat UN_I)
    from fromCodePoint_ok [OF small [OF this]] encode_cell_in_range [OF rect b] yx show ?thesis
      by simp
  qed
  from traverse_total [of ?P "encode_cell palette grid", OF this] obtain syms where
    "traverse (encode_cell palette grid) ?P = Inr syms"
    by blast
  with False rect_width [OF rect False] show ?thesis
    by (simp add: generateBlueprintFiles_def Let_def)
qed


lemma cell_index_bound:
  assumes "y < h" and "x < w"
  shows "y * w + x < w * (h::nat)"
proof -
  have "y * w + x < w * Suc y"
    using assms(2) by (simp add: mult.commute)
  also have "\<dots> \<le> w * h"
    using assms(1) by (intro mult_le_mono2) simp
  finally show ?thesis .
qed

lemma sorted_first_is_Min: "sorted (first # others) \<Longrightarrow> Min (set (first # others)) = first"
  by (rule Min_eqI) auto

lemma cell_blockId_smallest:
  assumes "chosen_ok palette cell"
  shows "cell_blockId palette cell = smallest_block_id palette cell"
proof (cases cell)
  case None
  then show ?thesis
    by (simp add: cell_blockId_def smallest_block_id_def)
next
  case (Some tid)
  show ?thesis
  proof (cases "tid < length palette")
    case False
    with Some show ?thesis
      by (simp add: cell_blockId_def smallest_block_id_def)
  next
    case True
    show ?thesis
    proof (cases "blockIds (palette ! tid)")
      case None
      with Some True show ?thesis
        by (simp add: cell_blockId_def smallest_block_id_def)
    next
      case (Some bs)
      with assms True \<open>cell = Some tid\<close> have "sorted bs"
        by (simp add: chosen_ok_def)
      with Some \<open>cell = Some tid\<close> True show ?thesis
        by (cases bs) (simp_all add: cell_blockId_def smallest_block_id_def sorted_first_is_Min
              del: sorted_wrt.simps set_simps)
    qed
  qed
qed

lemma cell_blockId_bounded:
  assumes "chosen_ok palette cell"
  shows "cell_blockId palette cell \<le> MAX_BLOCK_ID"
proof (cases cell)
  case None
  then show ?thesis
    by (simp add: cell_blockId_def)
next
  case (Some tid)
  show ?thesis
  proof (cases "tid < length palette")
    case False
    with Some show ?thesis
      by (simp add: cell_blockId_def)
  next
    case True
    show ?thesis
    proof (cases "blockIds (palette ! tid)")
      case None
      with Some True show ?thesis
        by (simp add: cell_blockId_def)
    next
      case (Some bs)
      with assms True \<open>cell = Some tid\<close> have "bs \<noteq> [] \<longrightarrow> hd bs \<le> MAX_BLOCK_ID"
        by (simp add: chosen_ok_def)
      with Some \<open>cell = Some tid\<close> True show ?thesis
        by (cases bs) (simp_all add: cell_blockId_def)
    qed
  qed
qed

lemma choices_ok_cell:
  "choices_ok palette grid \<Longrightarrow> cell \<in> set (concat grid) \<Longrightarrow> chosen_ok palette cell"
  by (auto simp: choices_ok_def list_all_iff)

lemma palette_ok_choices:
  assumes "palette_ok palette"
  shows "choices_ok palette grid"
proof -
  have "chosen_ok palette cell" for cell
  proof (cases cell)
    case None
    then show ?thesis
      by (simp add: chosen_ok_def)
  next
    case (Some tid)
    show ?thesis
    proof (cases "tid < length palette")
      case False
      with Some show ?thesis
        by (simp add: chosen_ok_def)
    next
      case True
      with assms have ok: "case blockIds (palette ! tid) of None \<Rightarrow> True
          | Some bs \<Rightarrow> sorted bs \<and> list_all (\<lambda>b. b \<le> MAX_BLOCK_ID) bs"
        by (simp add: palette_ok_def list_all_length)
      show ?thesis
      proof (cases "blockIds (palette ! tid)")
        case None
        with Some True show ?thesis
          by (simp add: chosen_ok_def)
      next
        case (Some bs)
        with ok have "sorted bs" "list_all (\<lambda>b. b \<le> MAX_BLOCK_ID) bs"
          by simp_all
        then have "sorted bs \<and> (bs \<noteq> [] \<longrightarrow> hd bs \<le> MAX_BLOCK_ID)"
          by (cases bs) simp_all
        with Some \<open>cell = Some tid\<close> True show ?thesis
          by (simp add: chosen_ok_def)
      qed
    qed
  qed
  then show ?thesis
    by (simp add: choices_ok_def list_all_iff)
qed

lemma cell_blockId_malformed:
  "malformed_choice palette tid \<Longrightarrow> cell_blockId palette (Some tid) = 0"
  by (auto simp: malformed_choice_def cell_blockId_def)

text \<open>
  Claim C3, as amended. For every rectangular grid and every palette in which the
  \<open>blockIds\<close> list of each texture the grid names is ascending with its first entry at
  most \<open>0x10FFFF - 0xE000\<close> (in particular every palette whose lists are all ascending
  and in that range), the encoder returns; it emits one symbol per cell in row-major
  order, \<open>width * height\<close> in all; each symbol is the code point \<open>0xE000\<close> plus the smallest
  \<open>blockIds\<close> entry of the cell's texture, and exactly \<open>0xE000\<close> for a cell without one;
  and subtracting the base from every symbol gives back the sequence of block ids.
\<close>

theorem C3_blueprint_round_trip:
  assumes "rectangular w choicesGrid" and "choices_ok palette choicesGrid"
  shows "\<exists>out. generateBlueprintFiles choicesGrid palette = Inr out
           \<and> length (symbols_of out) = w * length choicesGrid
           \<and> (\<forall>y < length choicesGrid. \<forall>x < w.
                 symbols_of out ! (y * w + x)
                   = UNICODE_PRIVATE_USE_START + smallest_block_id palette (choicesGrid ! y ! x))
           \<and> symbols_of out
               = map (\<lambda>cell. UNICODE_PRIVATE_USE_START + smallest_block_id palette cell)
                   (concat choicesGrid)
           \<and> decode (symbols_of out)
               = map (\<lambda>cell. int (smallest_block_id palette cell)) (concat choicesGrid)
           \<and> (choicesGrid \<noteq> [] \<longrightarrow>
                 (\<exists>bp. out = Some bp \<and> bp_width bp = w \<and> bp_height bp = length choicesGrid))"
proof -
  note cell = choices_ok_cell [OF assms(2)]
  from generate_total [OF assms(1), of palette] cell_blockId_bounded [OF cell]
  obtain out where run: "generateBlueprintFiles choicesGrid palette = Inr out"
    by blast
  have "map (\<lambda>cell. UNICODE_PRIVATE_USE_START + cell_blockId palette cell) (concat choicesGrid)
      = map (\<lambda>cell. UNICODE_PRIVATE_USE_START + smallest_block_id palette cell) (concat choicesGrid)"
    by (rule map_cong [OF refl]) (simp add: cell_blockId_smallest [OF cell])
  with generate_symbols [OF assms(1) run]
  have syms: "symbols_of out =
      map (\<lambda>cell. UNICODE_PRIVATE_USE_START + smallest_block_id palette cell) (concat choicesGrid)"
    by simp
  have len: "length (symbols_of out) = w * length choicesGrid"
    by (simp add: syms length_concat_rect [OF assms(1)])
  have at: "symbols_of out ! (y * w + x)
              = UNICODE_PRIVATE_USE_START + smallest_block_id palette (choicesGrid ! y ! x)"
    if "y < length choicesGrid" "x < w" for y x
  proof -
    have "y * w + x < length (concat choicesGrid)"
      using cell_index_bound [OF that] by (simp add: length_concat_rect [OF assms(1)])
    then show ?thesis
      by (simp add: syms nth_concat_rect [OF assms(1) that])
  qed
  have dec: "decode (symbols_of out)
               = map (\<lambda>cell. int (smallest_block_id palette cell)) (concat choicesGrid)"
    by (simp add: decode_def syms)
  have meta: "\<exists>bp. out = Some bp \<and> bp_width bp = w \<and> bp_height bp = length choicesGrid"
    if "choicesGrid \<noteq> []"
    using run that rect_width [OF assms(1) that]
    by (auto simp: generateBlueprintFiles_def Let_def split: sum.splits)
  from run len at syms dec meta show ?thesis
    by blast
qed

lemma upt_two: "[0..<2] = [0, Suc 0]"
  by (simp add: upt_rec)

lemma sample_palette_ok: "palette_ok sample_palette"
  by (simp add: palette_ok_def sample_palette_def flat_texture_def orphan_texture_def
        sample_texture_def MAX_BLOCK_ID_def)

lemma sample_choices_ok: "choices_ok sample_palette sample_grid"
  by (rule palette_ok_choices [OF sample_palette_ok])

lemma sample_rectangular: "rectangular 2 sample_grid"
  by (simp add: rectangular_def sample_grid_def)

theorem C3_witness:
  "rectangular 2 sample_grid \<and> choices_ok sample_palette sample_grid \<and>
   (\<exists>out. generateBlueprintFiles sample_grid sample_palette = Inr out \<and>
      length (symbols_of out) = 4 \<and>
      symbols_of out = [57349, 57344, 57344, 57344] \<and>
      decode (symbols_of out) = [5, 0, 0, 0])"
proof -
  have len: "length sample_grid = 2"
    by (simp add: sample_grid_def)
  have small: "map (\<lambda>cell. UNICODE_PRIVATE_USE_START + smallest_block_id sample_palette cell)
                 (concat sample_grid) = [57349, 57344, 57344, 57344]"
    by (simp add: UNICODE_PRIVATE_USE_START_def smallest_block_id_def sample_palette_def
          sample_grid_def flat_texture_def orphan_texture_def sample_texture_def)
  have ints: "map (\<lambda>cell. int (smallest_block_id sample_palette cell)) (concat sample_grid)
                = [5, 0, 0, 0]"
    by (simp add: smallest_block_id_def sample_palette_def sample_grid_def flat_texture_def
          orphan_texture_def sample_texture_def)
  from C3_blueprint_round_trip [OF sample_rectangular sample_choices_ok] obtain out where
    "generateBlueprintFiles sample_grid sample_palette = Inr out"
    "length (symbols_of out) = 2 * length sample_grid"
    "symbols_of out
       = map (\<lambda>cell. UNICODE_PRIVATE_USE_START + smallest_block_id sample_palette cell)
           (concat sample_grid)"
    "decode (symbols_of out)
       = map (\<lambda>cell. int (smallest_block_id sample_palette cell)) (concat sample_grid)"
    by blast
  then have "generateBlueprintFiles sample_grid sample_palette = Inr out \<and>
      length (symbols_of out) = 4 \<and>
      symbols_of out = [57349, 57344, 57344, 57344] \<and>
      decode (symbols_of out) = [5, 0, 0, 0]"
    by (simp only: len small ints) simp
  with sample_rectangular sample_choices_ok show ?thesis
    by blast
qed

text \<open>
  Claim C3 as stated fails. A block id above \<open>0x10FFFF - 0xE000\<close> makes
  \<open>String.fromCodePoint\<close> throw, so nothing is emitted; and the encoder takes the first
  entry of \<open>blockIds\<close>, which is the smallest only in an ascending list.
\<close>

theorem C3_counterexample:
  "rectangular 1 [[Some 0]] \<and>
   generateBlueprintFiles [[Some 0]] [big_texture] = Inl RangeError \<and>
   generateBlueprintFiles [[Some 0]] [flat_texture\<lparr>blockIds := Some [9, 5]\<rparr>]
     = Inr (Some \<lparr>blockMapString = [UNICODE_PRIVATE_USE_START + 9], bp_width = 1, bp_height = 1\<rparr>) \<and>
   smallest_block_id [flat_texture\<lparr>blockIds := Some [9, 5]\<rparr>] (Some 0) = 5"
  by (simp add: rectangular_def generateBlueprintFiles_def encode_cell_def cell_blockId_def
        fromCodePoint_def UNICODE_PRIVATE_USE_START_def big_texture_def sample_texture_def
        flat_texture_def smallest_block_id_def)

text \<open>
  Claim C10. A cell whose texture id has no palette entry, or whose entry has a missing
  or empty \<open>blockIds\<close> list, never makes the encoder fail: its own step yields the base
  code point (block id 0), that is the symbol at its position in every output, and the
  encoder returns whenever the block ids of the well-formed cells are in range.
\<close>

theorem C10_malformed_choice_encodes_zero:
  assumes "rectangular w choicesGrid" and "y < length choicesGrid" and "x < w"
    and "choicesGrid ! y ! x = Some tid" and "malformed_choice palette tid"
  shows "encode_cell palette choicesGrid (y, x) = Inr UNICODE_PRIVATE_USE_START
       \<and> (\<forall>out. generateBlueprintFiles choicesGrid palette = Inr out
             \<longrightarrow> symbols_of out ! (y * w + x) = UNICODE_PRIVATE_USE_START)
       \<and> ((\<forall>cell \<in> set (concat choicesGrid). \<forall>t. cell = Some t \<and> \<not> malformed_choice palette t
               \<longrightarrow> cell_blockId palette cell \<le> MAX_BLOCK_ID)
             \<longrightarrow> (\<exists>out. generateBlueprintFiles choicesGrid palette = Inr out))"
proof (intro conjI allI impI)
  have zero: "cell_blockId palette (choicesGrid ! y ! x) = 0"
    using assms(4,5) by (simp add: cell_blockId_malformed)
  show "encode_cell palette choicesGrid (y, x) = Inr UNICODE_PRIVATE_USE_START"
    using encode_cell_in_range [OF assms(1-3), of palette] fromCodePoint_ok [of 0]
    by (simp add: zero)
  show "symbols_of out ! (y * w + x) = UNICODE_PRIVATE_USE_START"
    if run: "generateBlueprintFiles choicesGrid palette = Inr out" for out
  proof -
    have "y * w + x < length (concat choicesGrid)"
      using cell_index_bound [OF assms(2,3)] by (simp add: length_concat_rect [OF assms(1)])
    then show ?thesis
      by (simp add: generate_symbols [OF assms(1) run] nth_concat_rect [OF assms(1-3)] zero)
  qed
  show "\<exists>out. generateBlueprintFiles choicesGrid palette = Inr out"
    if ok: "\<forall>cell \<in> set (concat choicesGrid). \<forall>t. cell = Some t \<and> \<not> malformed_choice palette t
               \<longrightarrow> cell_blockId palette cell \<le> MAX_BLOCK_ID"
  proof (rule generate_total [OF assms(1)])
    fix cell
    assume mem: "cell \<in> set (concat choicesGrid)"
    show "cell_blockId palette cell \<le> MAX_BLOCK_ID"
    proof (cases cell)
      case None
      then show ?thesis
        by (simp add: cell_blockId_def)
    next
      case (Some t)
      show ?thesis
      proof (cases "malformed_choice palette t")
        case True
        with Some show ?thesis
          by (simp add: cell_blockId_malformed)
      next
        case False
        with ok mem Some show ?thesis
          by blast
      qed
    qed
  qed
qed

theorem C10_witness:
  "malformed_choice sample_palette 1 \<and> malformed_choice sample_palette 4 \<and>
   generateBlueprintFiles sample_grid sample_palette
     = Inr (Some \<lparr>blockMapString = [57349, 57344, 57344, 57344], bp_width = 2, bp_height = 2\<rparr>) \<and>
   encode_cell sample_palette sample_grid (1, 0) = Inr UNICODE_PRIVATE_USE_START \<and>
   encode_cell sample_palette sample_grid (1, 1) = Inr UNICODE_PRIVATE_USE_START"
proof -
  have m1: "malformed_choice sample_palette 1" and m4: "malformed_choice sample_palette 4"
    by (simp_all add: malformed_choice_def sample_palette_def orphan_texture_def sample_texture_def)
  have at: "sample_grid ! 1 ! 0 = Some 1" "sample_grid ! 1 ! 1 = Some 4"
    by (simp_all add: sample_grid_def)
  have len: "1 < length sample_grid"
    by (simp add: sample_grid_def)
  have run: "generateBlueprintFiles sample_grid sample_palette
     = Inr (Some \<lparr>blockMapString = [57349, 57344, 57344, 57344], bp_width = 2, bp_height = 2\<rparr>)"
    by (simp add: generateBlueprintFiles_def sample_grid_def sample_palette_def upt_two
          encode_cell_def cell_blockId_def fromCodePoint_def UNICODE_PRIVATE_USE_START_def
          flat_texture_def orphan_texture_def sample_texture_def)
  have e0: "encode_cell sample_palette sample_grid (1, 0) = Inr UNICODE_PRIVATE_USE_START"
    using C10_malformed_choice_encodes_zero [OF sample_rectangular len _ at(1) m1] by simp
  have e1: "encode_cell sample_palette sample_grid (1, 1) = Inr UNICODE_PRIVATE_USE_START"
    using C10_malformed_choice_encodes_zero [OF sample_rectangular len _ at(2) m4] by simp
  from m1 m4 run e0 e1 show ?thesis
    by blast
qed

section \<open>Properties of the indexer and the generator\<close>

lemma blocks_loop_excluded:
  "blocks_loop analyze mapData st = blocks_loop analyze (filter (\<lambda>e. \<not> excluded e) mapData) st"
proof (induction mapData arbitrary: st)
  case Nil
  then show ?case by simp
next
  case (Cons entry rest)
  obtain blockId blockData where e: "entry = (blockId, blockData)"
    by (cases entry)
  show ?case
    by (simp add: e excluded_def Cons.IH split: sum.splits)
qed

text \<open>An excluded block leaves no trace in anything the indexer writes.\<close>

lemma indexer_main_excluded:
  "indexer_main analyze mapData = indexer_main analyze (filter (\<lambda>e. \<not> excluded e) mapData)"
  by (simp add: indexer_main_def blocks_loop_excluded [symmetric])

lemma face_step_included:
  "face_step analyze b bd face st = Inr st' \<Longrightarrow> st_includedBlockIds st' = st_includedBlockIds st"
  by (cases face) (auto simp: face_step_def Let_def split: if_splits option.splits sum.splits)

lemma faces_loop_included:
  "faces_loop analyze b bd faces st = Inr st' \<Longrightarrow> st_includedBlockIds st' = st_includedBlockIds st"
proof (induction faces arbitrary: st)
  case Nil
  then show ?case by simp
next
  case (Cons face faces)
  then show ?case
    by (auto split: sum.splits dest: face_step_included)
qed

lemma blocks_loop_included:
  "blocks_loop analyze mapData st = Inr st' \<Longrightarrow>
   st_includedBlockIds st' =
     st_includedBlockIds st @ map (\<lambda>e. parseInt10 (fst e)) (filter (\<lambda>e. \<not> excluded e) mapData)"
proof (induction mapData arbitrary: st)
  case Nil
  then show ?case by simp
next
  case (Cons entry rest)
  obtain blockId blockData where e: "entry = (blockId, blockData)"
    by (cases entry)
  show ?case
  proof (cases "excluded entry")
    case True
    then have "blocks_loop analyze (entry # rest) st = blocks_loop analyze rest st"
      by (auto simp: e excluded_def)
    with Cons.prems have "blocks_loop analyze rest st = Inr st'"
      by simp
    from Cons.IH [OF this] True show ?thesis
      by simp
  next
    case False
    with Cons.prems e obtain st1 where
      f: "faces_loop analyze (parseInt10 blockId) blockData (faceMap blockData)
            (st\<lparr>st_includedBlockIds := st_includedBlockIds st @ [parseInt10 blockId],
                st_blockMap := (st_blockMap st)(blockId \<mapsto> name blockData)\<rparr>) = Inr st1"
      and r: "blocks_loop analyze rest st1 = Inr st'"
      by (auto simp: excluded_def split: sum.splits)
    from faces_loop_included [OF f] Cons.IH [OF r] False e show ?thesis
      by simp
  qed
qed

text \<open>
  The indexer's list holds exactly the numbers read from the keys of the blocks that are
  neither slabs nor keyed in the exclusion set; the generator's list holds every number
  read from a key that is not a slab's.
\<close>

lemma indexer_included_ids:
  "indexer_main analyze mapData = Inr out \<Longrightarrow>
   set (includedBlockIds out) = (\<lambda>e. parseInt10 (fst e)) ` {e \<in> set mapData. \<not> excluded e}"
proof -
  assume run: "indexer_main analyze mapData = Inr out"
  then obtain st where st: "blocks_loop analyze mapData initial_state = Inr st"
    and out: "includedBlockIds out = sort (st_includedBlockIds st)"
    by (auto simp: indexer_main_def split: sum.splits)
  from blocks_loop_included [OF st] out show ?thesis
    by (auto simp: initial_state_def)
qed

lemma generator_loop_ids:
  "set (generator_loop mapData acc) =
     set acc \<union> set (map (\<lambda>e. parseInt10 (fst e))
                       (filter (\<lambda>e. \<not> str_includes (name (snd e)) ''Slab'') mapData))"
proof (induction mapData arbitrary: acc)
  case Nil
  then show ?case by simp
next
  case (Cons entry rest)
  obtain blockId blockData where e: "entry = (blockId, blockData)"
    by (cases entry)
  show ?case
    by (auto simp: e Cons.IH)
qed

lemma generator_ids:
  "set (generate_included_blockids mapData) =
     (\<lambda>e. parseInt10 (fst e)) ` {e \<in> set mapData. \<not> str_includes (name (snd e)) ''Slab''}"
  by (auto simp: generate_included_blockids_def generator_loop_ids)

lemma parseInt10_samples:
  "parseInt10 ''1'' = 1" "parseInt10 ''2'' = 2" "parseInt10 ''01'' = 1" "parseInt10 ''1232'' = 1232"
  by (simp_all add: parseInt10_def decDigit_def)

text \<open>
  The exclusion set is a set of keys: a block keyed \<open>01\<close> is not in it, and the indexer
  lists it under the number 1.
\<close>

lemma indexer_reads_raw_keys:
  "\<not> excluded (padded_map ! 0) \<and>
   map_sum id includedBlockIds (indexer_main sample_analyze padded_map) = Inr [1]"
proof -
  have key: "''01'' \<notin> idsToSkip"
    by (simp add: idsToSkip_def)
  have slab: "\<not> str_includes ''Air'' ''Slab''"
    by simp
  have "\<exists>st. blocks_loop sample_analyze padded_map initial_state = Inr st"
    by (simp add: padded_map_def slab key initial_state_def face_step_def sample_analyze_def
          index_face_def add_color_def getSimpleFaceName_def Let_def)
  then obtain st where st: "blocks_loop sample_analyze padded_map initial_state = Inr st"
    by blast
  from blocks_loop_included [OF st] have "st_includedBlockIds st = [1]"
    by (simp add: initial_state_def padded_map_def excluded_def slab key parseInt10_samples)
  then have "map_sum id includedBlockIds (indexer_main sample_analyze padded_map) = Inr [1]"
    by (simp add: indexer_main_def st)
  with key slab show ?thesis
    by (simp add: excluded_def padded_map_def)
qed

text \<open>
  Claim C2 at the block mapping \<open>sample_map\<close>. The block keyed \<open>1\<close> is in the fixed
  exclusion set and is no slab. The indexer leaves it out of \<open>includedBlockIds\<close> and out of every
  \<open>blockIds\<close> list of the palette; the companion generator lists it.
\<close>

theorem C2_generator_keeps_skipped_id:
  "excluded (sample_map ! 0) \<and> fst (sample_map ! 0) = ''1'' \<and>
   generate_included_blockids sample_map = [1, 2] \<and>
   map_sum id includedBlockIds (indexer_main sample_analyze sample_map) = Inr [2] \<and>
   map_sum id (\<lambda>out. map blockIds (texture_palette (finalData out)))
     (indexer_main sample_analyze sample_map) = Inr [Some [2]]"
proof -
  have slab: "str_includes ''Stone Slab'' ''Slab''" "\<not> str_includes ''Air'' ''Slab''"
    "\<not> str_includes ''Dirt'' ''Slab''"
    by simp_all
  have faces: "getSimpleFaceName ''Top'' = ''top''" "getSimpleFaceName ''Front'' = ''front''"
    by (simp_all add: getSimpleFaceName_def)
  have skip: "''1'' \<in> idsToSkip" "''2'' \<notin> idsToSkip"
    by (simp_all add: idsToSkip_def)
  have parse: "parseInt10 ''1'' = Suc 0" "parseInt10 ''2'' = 2"
    by (simp_all add: parseInt10_def decDigit_def)
  have gen: "generate_included_blockids sample_map = [1, 2]"
    by (simp add: generate_included_blockids_def sample_map_def slab parse)
  have loop: "blocks_loop sample_analyze sample_map initial_state = Inr st \<Longrightarrow>
      st_includedBlockIds st = [2] \<and> map textureId (st_texturePalette st) = [0] \<and>
      st_textureIdToBlockIds st 0 = Some [2]" for st
    by (auto simp: sample_map_def slab skip parse faces initial_state_def face_step_def
          sample_analyze_def index_face_def add_color_def Let_def)
  have total: "\<exists>st. blocks_loop sample_analyze sample_map initial_state = Inr st"
    by (simp add: sample_map_def slab skip parse faces initial_state_def face_step_def
          sample_analyze_def index_face_def add_color_def Let_def)
  then obtain st where st: "blocks_loop sample_analyze sample_map initial_state = Inr st"
    by blast
  from loop [OF st] have pal: "map (\<lambda>t. st_textureIdToBlockIds st (textureId t)) (st_texturePalette st) = [Some [2]]"
    by (cases "st_texturePalette st") auto
  have idx: "map_sum id includedBlockIds (indexer_main sample_analyze sample_map) = Inr [2]"
    using loop [OF st] by (simp add: indexer_main_def st)
  have ids: "map_sum id (\<lambda>out. map blockIds (texture_palette (finalData out)))
     (indexer_main sample_analyze sample_map) = Inr [Some [2]]"
    using loop [OF st] by (cases "st_texturePalette st") (auto simp: indexer_main_def st comp_def)
  from gen idx ids skip(1) slab(2) show ?thesis
    by (simp add: excluded_def sample_map_def)
qed

end
